theory Spec2Isabelle
  imports Complex_Main "HOL-Library.AList"
begin

section \<open>Shared data of the game API\<close>

text \<open>
  JavaScript numbers are idealised: tile coordinates, ticks, unit ids and passenger
  slots are integers, every other quantity (distances, firepower, threat) is a real.
  NaN is not a value of the model; where the source can produce it (a negative base
  under a fractional exponent) the model says so with \<open>None\<close>.
\<close>

record Tile =
  rx :: int
  ry :: int

type_synonym Point2D = "real \<times> real"

datatype MovementZone = Infantry | Normal | InfantryDestroyer | Fly | OtherZone

record TechnoRules =
  passengers :: int
  rsize :: int
  isSelectableCombatant :: bool
  movementZone :: MovementZone

text \<open>
  \<open>UnitData\<close> of the game API, with the fields the sources read. The declared type of
  \<open>tile\<close> is not optional, but \<open>Squad.onAiUpdate\<close> filters the tiles with \<open>!!tile\<close>:
  a unit without a tile is an input the code expects, so the field is an option.
\<close>

record UnitData =
  uid :: nat
  owner :: string
  canMove :: bool
  tile :: "Tile option"
  rules :: TechnoRules

text \<open>
  Modelled from the spec: \<open>getDistanceBetweenPoints\<close> lives in map/map.js, which is not
  among the sources; the spec calls the distance it returns the Euclidean distance.
\<close>

definition getDistanceBetweenPoints :: "Point2D \<Rightarrow> Point2D \<Rightarrow> real" where
  "getDistanceBetweenPoints a b = sqrt ((fst a - fst b)\<^sup>2 + (snd a - snd b)\<^sup>2)"

section \<open>Squad: liveness and cohesion\<close>

datatype SquadLiveness = SquadDead | SquadActive

text \<open>\<open>Math.round\<close> rounds half up: it is \<open>\<lfloor>v + 1/2\<rfloor>\<close>, which is \<^const>\<open>round\<close>.\<close>

definition Math_round :: "real \<Rightarrow> int" where
  "Math_round v = \<lfloor>v + 1 / 2\<rfloor>"

text \<open>lodash's \<open>_.max\<close>: \<open>undefined\<close> on the empty array, else a scan keeping the larger value.\<close>

fun lodash_max :: "real list \<Rightarrow> real option" where
  "lodash_max [] = None"
| "lodash_max (v # vs) = Some (fold (\<lambda>w cur. if w > cur then w else cur) vs v)"

record TileMetrics =
  tmCenterOfMass :: Point2D
  tmMaxDistance :: real

text \<open>The reducer of \<open>calculateCenterOfMass\<close>: the running sums of \<open>rx\<close> and \<open>ry\<close>.\<close>

definition sumTiles :: "Tile list \<Rightarrow> int \<times> int" where
  "sumTiles unitTiles = fold (\<lambda>t (sx, sy). (sx + rx t, sy + ry t)) unitTiles (0, 0)"

definition tilePoint :: "Tile \<Rightarrow> Point2D" where
  "tilePoint t = (real_of_int (rx t), real_of_int (ry t))"

definition calculateCenterOfMass :: "Tile list \<Rightarrow> TileMetrics option" where
  "calculateCenterOfMass unitTiles =
     (if length unitTiles = 0 then None
      else
        let sumsXY = sumTiles unitTiles;
            centerOfMass =
              (real_of_int (Math_round (real_of_int (fst sumsXY) / real (length unitTiles))),
               real_of_int (Math_round (real_of_int (snd sumsXY) / real (length unitTiles))));
            distances = map (\<lambda>t. getDistanceBetweenPoints (tilePoint t) centerOfMass) unitTiles
        in case lodash_max distances of
             None \<Rightarrow> None
           | Some maxDistance \<Rightarrow>
               Some \<lparr>tmCenterOfMass = centerOfMass, tmMaxDistance = maxDistance\<rparr>)"

text \<open>
  What a squad reads from the world during one call: the unit lookup (\<open>None\<close> for an id
  that no longer resolves), the tick, and whether a mission is still active.
\<close>

record GameApi =
  getUnitData :: "nat \<Rightarrow> UnitData option"
  getCurrentTick :: nat
  missionIsActive :: "nat \<Rightarrow> bool"

record Squad =
  unitIds :: "nat list"
  liveness :: SquadLiveness
  lastLivenessUpdateTick :: nat
  centerOfMass :: "Point2D option"
  maxDistanceToCenterOfMass :: "real option"
  mission :: "nat option"
  killable :: bool

text \<open>The constructor: no members, active, no cohesion yet.\<close>

definition newSquad :: "nat option \<Rightarrow> bool \<Rightarrow> Squad" where
  "newSquad m k =
     \<lparr>unitIds = [], liveness = SquadActive, lastLivenessUpdateTick = 0,
      centerOfMass = None, maxDistanceToCenterOfMass = None, mission = m, killable = k\<rparr>"

definition updateLiveness :: "GameApi \<Rightarrow> Squad \<Rightarrow> Squad" where
  "updateLiveness gameApi s =
     (let ids = filter (\<lambda>unitId. getUnitData gameApi unitId \<noteq> None) (unitIds s);
          s1 = s\<lparr>unitIds := ids, lastLivenessUpdateTick := getCurrentTick gameApi\<rparr>
      in if killable s1 \<and> length (unitIds s1) = 0
         then (if liveness s1 = SquadActive then s1\<lparr>liveness := SquadDead\<rparr> else s1)
         else s1)"

text \<open>The tiles of the members that resolve, can move and have a tile.\<close>

definition movableUnitTiles :: "GameApi \<Rightarrow> Squad \<Rightarrow> Tile list" where
  "movableUnitTiles gameApi s =
     List.map_filter (\<lambda>unit. case unit of None \<Rightarrow> None | Some u \<Rightarrow> tile u)
       (filter (\<lambda>unit. case unit of None \<Rightarrow> False | Some u \<Rightarrow> canMove u)
         (map (getUnitData gameApi) (unitIds s)))"

datatype SquadDispatch = Disband | RunBehaviour

text \<open>
  \<open>Squad.onAiUpdate\<close> up to the call of the behaviour. The behaviour itself is not among
  the sources: the model returns \<open>RunBehaviour\<close> where the source calls it, and whatever
  the behaviour does to the squad through its public methods is a later operation of a run.
\<close>

definition Squad_onAiUpdate :: "GameApi \<Rightarrow> Squad \<Rightarrow> SquadDispatch \<times> Squad" where
  "Squad_onAiUpdate gameApi s =
     (let s1 = updateLiveness gameApi s;
          s2 = (case calculateCenterOfMass (movableUnitTiles gameApi s1) of
                  Some tileMetrics \<Rightarrow>
                    s1\<lparr>centerOfMass := Some (tmCenterOfMass tileMetrics),
                       maxDistanceToCenterOfMass := Some (tmMaxDistance tileMetrics)\<rparr>
                | None \<Rightarrow> s1\<lparr>centerOfMass := None, maxDistanceToCenterOfMass := None\<rparr>)
      in case mission s2 of
           Some m \<Rightarrow>
             if \<not> missionIsActive gameApi m then (Disband, s2\<lparr>mission := None\<rparr>)
             else (RunBehaviour, s2)
         | None \<Rightarrow> (Disband, s2))"

definition removeUnit :: "nat \<Rightarrow> Squad \<Rightarrow> Squad" where
  "removeUnit unitIdToRemove s =
     s\<lparr>unitIds := filter (\<lambda>unitId. unitId \<noteq> unitIdToRemove) (unitIds s)\<rparr>"

definition addUnit :: "nat \<Rightarrow> Squad \<Rightarrow> Squad" where
  "addUnit unitIdToAdd s = s\<lparr>unitIds := unitIds s @ [unitIdToAdd]\<rparr>"

definition setMission :: "nat option \<Rightarrow> Squad \<Rightarrow> Squad" where
  "setMission m s = s\<lparr>mission := m\<rparr>"

text \<open>The calls a squad receives over its life, in order.\<close>

datatype SquadCall =
  OnAiUpdate GameApi
| AddUnit nat
| RemoveUnit nat
| SetMission "nat option"

fun squadCall :: "SquadCall \<Rightarrow> Squad \<Rightarrow> Squad" where
  "squadCall (OnAiUpdate gameApi) s = snd (Squad_onAiUpdate gameApi s)"
| "squadCall (AddUnit i) s = addUnit i s"
| "squadCall (RemoveUnit i) s = removeUnit i s"
| "squadCall (SetMission m) s = setMission m s"

definition squadRun :: "SquadCall list \<Rightarrow> Squad \<Rightarrow> Squad" where
  "squadRun calls s = fold squadCall calls s"

text \<open>How many calls of a run take the squad from active to dead.\<close>

fun deaths :: "SquadCall list \<Rightarrow> Squad \<Rightarrow> nat" where
  "deaths [] s = 0"
| "deaths (c # cs) s =
     (if liveness s = SquadActive \<and> liveness (squadCall c s) = SquadDead then 1 else 0)
     + deaths cs (squadCall c s)"

text \<open>Concrete worlds and squads for the closed instances below.\<close>

definition emptyWorld :: GameApi where
  "emptyWorld = \<lparr>getUnitData = (\<lambda>_. None), getCurrentTick = 5, missionIsActive = (\<lambda>_. True)\<rparr>"

definition groundUnitAt :: "nat \<Rightarrow> int \<Rightarrow> int \<Rightarrow> UnitData" where
  "groundUnitAt i a b =
     \<lparr>uid = i, owner = ''enemy'', canMove = True, tile = Some \<lparr>rx = a, ry = b\<rparr>,
      rules = \<lparr>passengers = 0, rsize = 1, isSelectableCombatant = True, movementZone = Normal\<rparr>\<rparr>"

definition lineWorld :: GameApi where
  "lineWorld =
     \<lparr>getUnitData = (\<lambda>i. if i = 1 then Some (groundUnitAt 1 0 0)
                           else if i = 2 then Some (groundUnitAt 2 2 0)
                           else if i = 3 then Some (groundUnitAt 3 4 0) else None),
      getCurrentTick = 6, missionIsActive = (\<lambda>_. True)\<rparr>"

definition lineSquad :: Squad where
  "lineSquad = addUnit 3 (addUnit 2 (addUnit 1 (newSquad (Some 1) False)))"





section \<open>Squad: theorems\<close>

lemma updateLiveness_killable [simp]: "killable (updateLiveness g s) = killable s"
  by (simp add: updateLiveness_def Let_def)

lemma squadCall_killable [simp]: "killable (squadCall c s) = killable s"
  by (cases c)
    (simp_all add: Squad_onAiUpdate_def Let_def addUnit_def removeUnit_def setMission_def
      split: option.splits)

lemma updateLiveness_dead: "liveness s = SquadDead \<Longrightarrow> liveness (updateLiveness g s) = SquadDead"
  by (simp add: updateLiveness_def Let_def)

lemma updateLiveness_not_killable: "\<not> killable s \<Longrightarrow> liveness (updateLiveness g s) = liveness s"
  by (simp add: updateLiveness_def Let_def)

lemma onAiUpdate_liveness:
  "liveness (snd (Squad_onAiUpdate g s)) = liveness (updateLiveness g s)"
  by (simp add: Squad_onAiUpdate_def Let_def split: option.splits)

lemma squadCall_dead: "liveness s = SquadDead \<Longrightarrow> liveness (squadCall c s) = SquadDead"
  by (cases c)
    (simp_all add: onAiUpdate_liveness updateLiveness_dead addUnit_def removeUnit_def
      setMission_def)

lemma squadCall_not_killable: "\<not> killable s \<Longrightarrow> liveness (squadCall c s) = liveness s"
  by (cases c)
    (simp_all add: onAiUpdate_liveness updateLiveness_not_killable addUnit_def removeUnit_def
      setMission_def)

lemma squadRun_dead: "liveness s = SquadDead \<Longrightarrow> liveness (squadRun calls s) = SquadDead"
  unfolding squadRun_def
  by (induction calls arbitrary: s) (simp_all add: squadCall_dead)

lemma squadRun_not_killable: "\<not> killable s \<Longrightarrow> liveness (squadRun calls s) = liveness s"
  unfolding squadRun_def
  by (induction calls arbitrary: s) (simp_all add: squadCall_not_killable)

lemma onAiUpdate_empties:
  assumes "killable s" and "\<forall>i \<in> set (unitIds s). getUnitData g i = None"
  shows "liveness (snd (Squad_onAiUpdate g s)) = SquadDead"
proof -
  have "filter (\<lambda>unitId. getUnitData g unitId \<noteq> None) (unitIds s) = []"
    using assms(2) by (simp add: filter_empty_conv)
  then show ?thesis
    using assms(1) by (cases "liveness s") (simp_all add: onAiUpdate_liveness updateLiveness_def)
qed

lemma deaths_dead: "liveness s = SquadDead \<Longrightarrow> deaths calls s = 0"
  by (induction calls arbitrary: s) (simp_all add: squadCall_dead)

lemma deaths_not_killable: "\<not> killable s \<Longrightarrow> deaths calls s = 0"
  by (induction calls arbitrary: s) (simp_all add: squadCall_not_killable)

text \<open>
  C6. A killable, active squad whose members all fail to resolve in an update is dead
  after that update; over any further calls (updates, members added or removed, mission
  changes) it stays dead, so the run holds exactly one transition from active to dead.
  A squad that is not killable keeps its liveness over every run, whatever its
  membership: an active one never leaves active.
\<close>

theorem squad_liveness_one_way:
  "(killable s \<and> liveness s = SquadActive \<and> (\<forall>i \<in> set (unitIds s). getUnitData g i = None) \<longrightarrow>
      liveness (snd (Squad_onAiUpdate g s)) = SquadDead \<and>
      liveness (squadRun (OnAiUpdate g # calls) s) = SquadDead \<and>
      deaths (OnAiUpdate g # calls) s = 1)
   \<and> (\<not> killable s' \<and> liveness s' = SquadActive \<longrightarrow>
      liveness (squadRun calls' s') = SquadActive \<and> deaths calls' s' = 0)"
proof (intro conjI impI)
  assume a: "killable s \<and> liveness s = SquadActive \<and> (\<forall>i \<in> set (unitIds s). getUnitData g i = None)"
  then show dead: "liveness (snd (Squad_onAiUpdate g s)) = SquadDead"
    using onAiUpdate_empties by blast
  have "squadRun (OnAiUpdate g # calls) s = squadRun calls (snd (Squad_onAiUpdate g s))"
    by (simp add: squadRun_def)
  then show "liveness (squadRun (OnAiUpdate g # calls) s) = SquadDead"
    using dead squadRun_dead by simp
  show "deaths (OnAiUpdate g # calls) s = 1"
    using a dead by (simp add: deaths_dead)
next
  assume b: "\<not> killable s' \<and> liveness s' = SquadActive"
  then show "liveness (squadRun calls' s') = SquadActive"
    using squadRun_not_killable [of s' calls'] by simp
  show "deaths calls' s' = 0"
    using b deaths_not_killable by blast
qed

theorem squad_liveness_one_way_witness:
  "liveness (squadRun [OnAiUpdate emptyWorld, AddUnit 3, OnAiUpdate lineWorld]
      (addUnit 9 (newSquad (Some 1) True))) = SquadDead
   \<and> deaths [OnAiUpdate emptyWorld, AddUnit 3, OnAiUpdate lineWorld]
      (addUnit 9 (newSquad (Some 1) True)) = 1
   \<and> liveness (squadRun [OnAiUpdate emptyWorld, AddUnit 3, OnAiUpdate lineWorld]
      (newSquad (Some 1) False)) = SquadActive"
  using squad_liveness_one_way [of "addUnit 9 (newSquad (Some 1) True)" emptyWorld
      "[AddUnit 3, OnAiUpdate lineWorld]" "newSquad (Some 1) False"
      "[OnAiUpdate emptyWorld, AddUnit 3, OnAiUpdate lineWorld]"]
  by (simp add: newSquad_def addUnit_def emptyWorld_def)






lemma distance_same_row: "getDistanceBetweenPoints (a, c) (b, c) = \<bar>a - b\<bar>"
  by (simp add: getDistanceBetweenPoints_def)







section \<open>Awareness: the hostile index, the attack flag, the rally point\<close>

record GlobalThreat =
  totalOffensiveLandThreat :: real
  totalOffensiveAirThreat :: real
  totalOffensiveAntiAirThreat :: real
  totalDefensiveThreat :: real
  totalDefensivePower :: real
  totalAvailableAntiGroundFirepower :: real
  totalAvailableAntiAirFirepower :: real
  totalAvailableAirPower :: real

text \<open>
  A \<open>Circle\<close> of the quadtree library; \<open>cdata\<close> is the unit id it carries, absent on a
  query circle. The library is third-party code: the model keeps the inserted circles in
  order, and \<open>retrieve\<close> is a parameter of the query, free to return any candidates.
\<close>

record Circle =
  cx :: real
  cy :: real
  cr :: real
  cdata :: "nat option"

type_synonym Quadtree = "Circle list"

type_synonym Retrieve = "Quadtree \<Rightarrow> Circle \<Rightarrow> Circle list"

record UnitPositionQuery =
  qx :: real
  qy :: real
  unitId :: "nat option"

datatype error = TypeError | EngineError

definition quadtree_clear :: "Quadtree \<Rightarrow> Quadtree" where
  "quadtree_clear q = []"

definition quadtree_insert :: "Quadtree \<Rightarrow> Circle \<Rightarrow> Quadtree" where
  "quadtree_insert q c = q @ [c]"

text \<open>
  The circle \<open>rebuildQuadtree\<close> builds for a unit, and its \<open>forEach\<close>: reading
  \<open>unit.tile.rx\<close> of a unit without a tile throws (no circle, \<open>None\<close>), and the tree
  keeps what was inserted before.
\<close>

definition unitCircle :: "UnitData \<Rightarrow> Circle option" where
  "unitCircle unit =
     (case tile unit of
        None \<Rightarrow> None
      | Some t \<Rightarrow>
          Some \<lparr>cx = real_of_int (rx t), cy = real_of_int (ry t), cr = 1, cdata = Some (uid unit)\<rparr>)"

fun insertUnits :: "Quadtree \<Rightarrow> UnitData list \<Rightarrow> error option \<times> Quadtree" where
  "insertUnits q [] = (None, q)"
| "insertUnits q (unit # units) =
     (case unitCircle unit of
        None \<Rightarrow> (Some TypeError, q)
      | Some c \<Rightarrow> insertUnits (quadtree_insert q c) units)"

definition rebuildQuadtree :: "Quadtree \<Rightarrow> UnitData list \<Rightarrow> error option \<times> Quadtree" where
  "rebuildQuadtree quadtree units = insertUnits (quadtree_clear quadtree) units"

text \<open>JavaScript truthiness of a unit id: a number other than 0.\<close>

definition truthyId :: "nat option \<Rightarrow> bool" where
  "truthyId i = (case i of None \<Rightarrow> False | Some n \<Rightarrow> n \<noteq> 0)"

definition getHostilesNearPoint ::
    "Retrieve \<Rightarrow> Quadtree \<Rightarrow> real \<Rightarrow> real \<Rightarrow> real \<Rightarrow> UnitPositionQuery list" where
  "getHostilesNearPoint retrieve hostileQuadTree searchX searchY radius =
     (let intersections =
            retrieve hostileQuadTree \<lparr>cx = searchX, cy = searchY, cr = radius, cdata = None\<rparr>
      in filter (\<lambda>e. truthyId (unitId e))
           (filter (\<lambda>e. getDistanceBetweenPoints (qx e, qy e) (searchX, searchY) \<le> radius)
              (map (\<lambda>c. \<lparr>qx = cx c, qy = cy c, unitId = cdata c\<rparr>) intersections)))"

definition getHostilesNearPoint2d ::
    "Retrieve \<Rightarrow> Quadtree \<Rightarrow> Point2D \<Rightarrow> real \<Rightarrow> UnitPositionQuery list" where
  "getHostilesNearPoint2d retrieve hostileQuadTree point radius =
     getHostilesNearPoint retrieve hostileQuadTree (fst point) (snd point) radius"

text \<open>\<open>Math.pow(b, 1.025)\<close>: NaN (\<open>None\<close>) on a negative base.\<close>

definition Math_pow_1025 :: "real \<Rightarrow> real option" where
  "Math_pow_1025 b = (if b < 0 then None else Some (b powr 1.025))"

text \<open>\<open>a > b\<close> where \<open>a\<close> may be NaN: every comparison with NaN is false.\<close>

definition num_gt :: "real option \<Rightarrow> real \<Rightarrow> bool" where
  "num_gt a b = (case a of None \<Rightarrow> False | Some v \<Rightarrow> v > b)"

definition checkShouldAttack :: "GlobalThreat \<Rightarrow> real \<Rightarrow> bool" where
  "checkShouldAttack threatCache threatFactor =
     (let scaledGroundPower = Math_pow_1025 (totalAvailableAntiGroundFirepower threatCache);
          scaledGroundThreat =
            (threatFactor * totalOffensiveLandThreat threatCache
               + totalDefensiveThreat threatCache) * 1.1;
          scaledAirPower = Math_pow_1025 (totalAvailableAirPower threatCache);
          scaledAirThreat =
            (threatFactor * totalOffensiveAntiAirThreat threatCache
               + totalDefensiveThreat threatCache) * 1.1
      in num_gt scaledGroundPower scaledGroundThreat \<or> num_gt scaledAirPower scaledAirThreat)"

definition isHostileUnit :: "UnitData option \<Rightarrow> string list \<Rightarrow> bool" where
  "isHostileUnit unit hostilePlayerNames =
     (case unit of None \<Rightarrow> False | Some u \<Rightarrow> owner u \<in> set hostilePlayerNames)"

record PlayerData =
  pname :: string
  isCombatant :: bool

text \<open>
  What the awareness reads from the game during one update. Inside the \<open>try\<close> block the
  unit lookup may throw, so there it returns an error or the unit. The results of
  \<open>calculateGlobalThreat\<close> (from the visibility) and \<open>getPointTowardsOtherPoint\<close>, both
  outside the sources, are fields; the sector cache only supplies the visibility.
\<close>

record Game =
  gameTick :: nat
  getTickRate :: real
  getPlayers :: "string list"
  getPlayerData :: "string \<Rightarrow> PlayerData"
  areAlliedPlayers :: "string \<Rightarrow> string \<Rightarrow> bool"
  getVisibleUnits :: "nat list"
  tryGetUnitData :: "nat \<Rightarrow> error + UnitData option"
  getOverallVisibility :: "real option"
  calculateGlobalThreat :: "real \<Rightarrow> GlobalThreat"
  getPointTowardsOtherPoint :: Point2D

datatype AwLog =
  CaughtError "nat list"
| CalculatingThreat real
| ThreatReport GlobalThreat
| GameLengthMultiplier real
| SwitchedToAttack
| SwitchedToDefence

record MatchAwareness =
  shouldAttack :: bool
  hostileQuadTree :: Quadtree
  threatCache :: "GlobalThreat option"
  mainRallyPoint :: Point2D
  logged :: "AwLog list"

definition THREAT_UPDATE_INTERVAL_TICKS :: nat where
  "THREAT_UPDATE_INTERVAL_TICKS = 30"

definition RALLY_POINT_UPDATE_INTERVAL_TICKS :: nat where
  "RALLY_POINT_UPDATE_INTERVAL_TICKS = 60"

definition hostilePlayerNames :: "Game \<Rightarrow> string \<Rightarrow> string list" where
  "hostilePlayerNames game self =
     map pname
       (filter (\<lambda>other. pname other \<noteq> self \<and> isCombatant other
                  \<and> \<not> areAlliedPlayers game self (pname other))
          (map (getPlayerData game) (getPlayers game)))"

text \<open>\<open>ids.map(id => game.getUnitData(id))\<close>: the first lookup that throws ends the map.\<close>

fun lookupAll :: "(nat \<Rightarrow> error + UnitData option) \<Rightarrow> nat list \<Rightarrow> error + UnitData option list" where
  "lookupAll f [] = Inr []"
| "lookupAll f (i # ids) =
     (case f i of
        Inl e \<Rightarrow> Inl e
      | Inr u \<Rightarrow> (case lookupAll f ids of Inl e \<Rightarrow> Inl e | Inr us \<Rightarrow> Inr (u # us)))"

text \<open>\<open>found.filter((unit) => this.isHostileUnit(unit, hostilePlayerNames)) as UnitData[]\<close>.\<close>

definition hostileUnitsOf :: "string list \<Rightarrow> UnitData option list \<Rightarrow> UnitData list" where
  "hostileUnitsOf names found =
     List.map_filter (\<lambda>unit. if isHostileUnit unit names then unit else None) found"

text \<open>
  The \<open>try\<close>/\<open>catch\<close> of \<open>onAiUpdate\<close>: the hostile units are looked up and filtered, then
  the tree is rebuilt. An exception from either part is caught and reported with
  \<open>console.error\<close>; the tree is whatever it was when the exception was thrown.
\<close>

definition rebuildStep :: "Game \<Rightarrow> string \<Rightarrow> MatchAwareness \<Rightarrow> MatchAwareness" where
  "rebuildStep game self a =
     (let names = hostilePlayerNames game self;
          hostileUnitIds = getVisibleUnits game
      in case lookupAll (tryGetUnitData game) hostileUnitIds of
           Inl e \<Rightarrow> a\<lparr>logged := logged a @ [CaughtError hostileUnitIds]\<rparr>
         | Inr found \<Rightarrow>
             (let hostileUnits = hostileUnitsOf names found
              in (case rebuildQuadtree (hostileQuadTree a) hostileUnits of
                    (None, q) \<Rightarrow> a\<lparr>hostileQuadTree := q\<rparr>
                  | (Some e, q) \<Rightarrow>
                      a\<lparr>hostileQuadTree := q,
                        logged := logged a @ [CaughtError hostileUnitIds]\<rparr>)))"

definition gameLengthFactor :: "Game \<Rightarrow> real" where
  "gameLengthFactor game = max 0 (1.0 - real (gameTick game) / (15 * 7200.0))"

definition threatStep :: "Game \<Rightarrow> MatchAwareness \<Rightarrow> MatchAwareness" where
  "threatStep game a =
     (if gameTick game mod THREAT_UPDATE_INTERVAL_TICKS = 0 then
        (case getOverallVisibility game of
           None \<Rightarrow> a
         | Some visibility \<Rightarrow>
             if visibility = 0 then a
             else
               let tc = calculateGlobalThreat game visibility;
                   glf = gameLengthFactor game;
                   a1 = a\<lparr>threatCache := Some tc,
                          logged := logged a
                            @ [CalculatingThreat visibility, ThreatReport tc, GameLengthMultiplier glf]\<rparr>
               in if \<not> shouldAttack a1 then
                    (let a2 = a1\<lparr>shouldAttack := checkShouldAttack tc (1.25 * glf)\<rparr>
                     in if shouldAttack a2 then a2\<lparr>logged := logged a2 @ [SwitchedToAttack]\<rparr>
                        else a2)
                  else
                    (let a2 = a1\<lparr>shouldAttack := checkShouldAttack tc (0.75 * glf)\<rparr>
                     in if \<not> shouldAttack a2 then a2\<lparr>logged := logged a2 @ [SwitchedToDefence]\<rparr>
                        else a2))
      else a)"

definition rallyStep :: "Game \<Rightarrow> MatchAwareness \<Rightarrow> MatchAwareness" where
  "rallyStep game a =
     (if gameTick game mod RALLY_POINT_UPDATE_INTERVAL_TICKS = 0
      then a\<lparr>mainRallyPoint := getPointTowardsOtherPoint game\<rparr>
      else a)"

definition Awareness_onAiUpdate :: "Game \<Rightarrow> string \<Rightarrow> MatchAwareness \<Rightarrow> MatchAwareness" where
  "Awareness_onAiUpdate game self a = rallyStep game (threatStep game (rebuildStep game self a))"

text \<open>Concrete indexes for the closed instances: a \<open>retrieve\<close> that prunes nothing.\<close>

definition retrieveAll :: Retrieve where
  "retrieveAll q c = q"

definition twoCircles :: Quadtree where
  "twoCircles = [\<lparr>cx = 2, cy = 0, cr = 1, cdata = Some 7\<rparr>, \<lparr>cx = 40, cy = 0, cr = 1, cdata = Some 8\<rparr>]"

text \<open>The attack rule as the specification words it, over the enemy's offensive air threat.\<close>

definition spec_attackFlag :: "GlobalThreat \<Rightarrow> real \<Rightarrow> bool" where
  "spec_attackFlag t f =
     (totalAvailableAntiGroundFirepower t powr 1.025
        > (f * totalOffensiveLandThreat t + totalDefensiveThreat t) * 1.1
      \<or> totalAvailableAirPower t powr 1.025
        > (f * totalOffensiveAirThreat t + totalDefensiveThreat t) * 1.1)"

text \<open>The game length factor as the specification words it, over the engine's tick rate.\<close>

definition spec_gameLengthFactor :: "real \<Rightarrow> nat \<Rightarrow> real" where
  "spec_gameLengthFactor tickRate t = max 0 (1 - real t / (tickRate * 7200))"

definition threatOf :: "real \<Rightarrow> real \<Rightarrow> real \<Rightarrow> real \<Rightarrow> real \<Rightarrow> real \<Rightarrow> GlobalThreat" where
  "threatOf ground land defensive air antiAir airThreat =
     \<lparr>totalOffensiveLandThreat = land, totalOffensiveAirThreat = airThreat,
      totalOffensiveAntiAirThreat = antiAir, totalDefensiveThreat = defensive,
      totalDefensivePower = 0, totalAvailableAntiGroundFirepower = ground,
      totalAvailableAntiAirFirepower = 0, totalAvailableAirPower = air\<rparr>"

definition gameAt :: "nat \<Rightarrow> real \<Rightarrow> GlobalThreat \<Rightarrow> Game" where
  "gameAt t rate tc =
     \<lparr>gameTick = t, getTickRate = rate, getPlayers = [''me'', ''enemy''],
      getPlayerData = (\<lambda>n. \<lparr>pname = n, isCombatant = True\<rparr>),
      areAlliedPlayers = (\<lambda>a b. False), getVisibleUnits = [],
      tryGetUnitData = (\<lambda>i. Inr None), getOverallVisibility = Some (1 / 2),
      calculateGlobalThreat = (\<lambda>v. tc), getPointTowardsOtherPoint = (10, 10)\<rparr>"

definition newAwareness :: MatchAwareness where
  "newAwareness =
     \<lparr>shouldAttack = False, hostileQuadTree = [], threatCache = None,
      mainRallyPoint = (0, 0), logged = []\<rparr>"

definition tilelessUnit :: "nat \<Rightarrow> UnitData" where
  "tilelessUnit i = (groundUnitAt i 0 0)\<lparr>tile := None\<rparr>"

text \<open>Unit 1 stands on a tile, unit 2 has none: the rebuild throws at unit 2.\<close>

definition tilelessGame :: Game where
  "tilelessGame =
     (gameAt 1 15 (threatOf 100 50 0 0 0 0))
       \<lparr>getVisibleUnits := [1, 2],
        tryGetUnitData := (\<lambda>i. if i = 2 then Inr (Some (tilelessUnit 2))
                                else Inr (Some (groundUnitAt i 3 0)))\<rparr>"

text \<open>The lookup of unit 2 throws: the hostile set is never built.\<close>

definition throwingGame :: Game where
  "throwingGame =
     (gameAt 30 15 (threatOf 100 50 0 0 0 0))
       \<lparr>getVisibleUnits := [1, 2],
        tryGetUnitData := (\<lambda>i. if i = 2 then Inl EngineError
                                else Inr (Some (groundUnitAt i 3 0)))\<rparr>"

definition seenAwareness :: MatchAwareness where
  "seenAwareness = newAwareness\<lparr>hostileQuadTree := twoCircles\<rparr>"

section \<open>Awareness: theorems on the radius query\<close>

text \<open>
  C5. Whatever the index holds and whatever candidates its \<open>retrieve\<close> returns for the
  query circle, every entry that \<open>getHostilesNearPoint\<close> returns lies at Euclidean
  distance at most the radius from the query point.
\<close>

theorem hostiles_within_radius:
  "\<forall>e \<in> set (getHostilesNearPoint retrieve tree searchX searchY radius).
     sqrt ((qx e - searchX)\<^sup>2 + (qy e - searchY)\<^sup>2) \<le> radius"
  by (simp add: getHostilesNearPoint_def getDistanceBetweenPoints_def)

theorem hostiles_within_radius_witness:
  "getHostilesNearPoint retrieveAll twoCircles 0 0 5 = [\<lparr>qx = 2, qy = 0, unitId = Some 7\<rparr>]
   \<and> sqrt ((2 - 0)\<^sup>2 + (0 - 0)\<^sup>2) \<le> (5::real)"
proof -
  have r: "getHostilesNearPoint retrieveAll twoCircles 0 0 5 = [\<lparr>qx = 2, qy = 0, unitId = Some 7\<rparr>]"
    by (simp add: getHostilesNearPoint_def retrieveAll_def twoCircles_def distance_same_row truthyId_def)
  show ?thesis
    using hostiles_within_radius [of retrieveAll twoCircles 0 0 5] unfolding r by simp
qed

text \<open>
  C10. No entry returned by \<open>getHostilesNearPoint\<close> has a missing unit id or the unit
  id 0: a hostile that was inserted with id 0 is filtered out of the result, also when
  it lies within the radius.
\<close>

theorem hostiles_never_falsy_id:
  "\<forall>e \<in> set (getHostilesNearPoint retrieve tree searchX searchY radius).
     unitId e \<noteq> None \<and> unitId e \<noteq> Some 0"
  by (auto simp add: getHostilesNearPoint_def truthyId_def split: option.splits)

theorem hostiles_never_falsy_id_witness:
  "rebuildQuadtree [] [groundUnitAt 0 1 0, groundUnitAt 5 2 0]
     = (None, [\<lparr>cx = 1, cy = 0, cr = 1, cdata = Some 0\<rparr>, \<lparr>cx = 2, cy = 0, cr = 1, cdata = Some 5\<rparr>])
   \<and> getDistanceBetweenPoints (1, 0) (0, 0) \<le> 5
   \<and> getHostilesNearPoint retrieveAll
        (snd (rebuildQuadtree [] [groundUnitAt 0 1 0, groundUnitAt 5 2 0])) 0 0 5
     = [\<lparr>qx = 2, qy = 0, unitId = Some 5\<rparr>]
   \<and> unitId \<lparr>qx = 2, qy = 0, unitId = Some 5\<rparr> \<noteq> Some 0"
proof -
  have t: "rebuildQuadtree [] [groundUnitAt 0 1 0, groundUnitAt 5 2 0]
     = (None, [\<lparr>cx = 1, cy = 0, cr = 1, cdata = Some 0\<rparr>, \<lparr>cx = 2, cy = 0, cr = 1, cdata = Some 5\<rparr>])"
    by (simp add: rebuildQuadtree_def quadtree_clear_def quadtree_insert_def unitCircle_def
        groundUnitAt_def)
  have r: "getHostilesNearPoint retrieveAll
        (snd (rebuildQuadtree [] [groundUnitAt 0 1 0, groundUnitAt 5 2 0])) 0 0 5
     = [\<lparr>qx = 2, qy = 0, unitId = Some 5\<rparr>]"
    unfolding t by (simp add: getHostilesNearPoint_def retrieveAll_def distance_same_row truthyId_def)
  show ?thesis
    using hostiles_never_falsy_id [of retrieveAll
        "snd (rebuildQuadtree [] [groundUnitAt 0 1 0, groundUnitAt 5 2 0])" 0 0 5] t r
    by (simp add: distance_same_row)
qed

section \<open>Awareness: theorems on the attack flag\<close>

lemma threatStep_flag:
  assumes "gameTick game mod 30 = 0" and "getOverallVisibility game = Some v" and "v \<noteq> 0"
  shows "shouldAttack (threatStep game a)
     = checkShouldAttack (calculateGlobalThreat game v)
         ((if shouldAttack a then 0.75 else 1.25) * gameLengthFactor game)"
  using assms by (simp add: threatStep_def THREAT_UPDATE_INTERVAL_TICKS_def Let_def)

lemma checkShouldAttack_iff:
  assumes "0 \<le> totalAvailableAntiGroundFirepower tc" and "0 \<le> totalAvailableAirPower tc"
  shows "checkShouldAttack tc f \<longleftrightarrow>
     (totalAvailableAntiGroundFirepower tc powr 1.025
        > (f * totalOffensiveLandThreat tc + totalDefensiveThreat tc) * 1.1
      \<or> totalAvailableAirPower tc powr 1.025
        > (f * totalOffensiveAntiAirThreat tc + totalDefensiveThreat tc) * 1.1)"
  using assms by (simp add: checkShouldAttack_def Math_pow_1025_def num_gt_def Let_def not_less)

lemma hundred_powr: "(100::real) \<le> 100 powr 1.025"
proof -
  have "(100::real) powr 1 \<le> 100 powr 1.025"
    by (rule powr_mono) simp_all
  then show ?thesis by simp
qed

text \<open>
  C1, as amended. At a hysteresis evaluation (a tick that is a multiple of 30, with a
  non-zero visibility), with the fresh threat snapshot and the factor \<open>f\<close> already chosen,
  and the two own power values not negative, the flag becomes true iff
  \<open>antiGroundPower ^ 1.025 > (f * enemyOffensiveLandThreat + enemyDefensiveThreat) * 1.1\<close> or
  \<open>airPower ^ 1.025 > (f * enemyOffensiveAntiAirThreat + enemyDefensiveThreat) * 1.1\<close>:
  the air side is weighed against the enemy's anti-air threat, not its air threat.
  In particular, with anti-ground power 100, offensive land threat 50, defensive threat
  0, currently defending and a game length factor of 1 (so \<open>f = 1.25\<close>), the flag
  becomes true.
\<close>

theorem attack_flag_rule:
  "(gameTick game mod 30 = 0 \<and> getOverallVisibility game = Some v \<and> v \<noteq> 0
      \<and> tc = calculateGlobalThreat game v
      \<and> f = (if shouldAttack a then 0.75 else 1.25) * gameLengthFactor game
      \<and> 0 \<le> totalAvailableAntiGroundFirepower tc \<and> 0 \<le> totalAvailableAirPower tc \<longrightarrow>
      (shouldAttack (threatStep game a) \<longleftrightarrow>
         totalAvailableAntiGroundFirepower tc powr 1.025
           > (f * totalOffensiveLandThreat tc + totalDefensiveThreat tc) * 1.1
         \<or> totalAvailableAirPower tc powr 1.025
           > (f * totalOffensiveAntiAirThreat tc + totalDefensiveThreat tc) * 1.1))
   \<and> (gameTick game mod 30 = 0 \<and> getOverallVisibility game = Some v \<and> v \<noteq> 0
      \<and> tc = calculateGlobalThreat game v \<and> \<not> shouldAttack a \<and> gameLengthFactor game = 1
      \<and> totalAvailableAntiGroundFirepower tc = 100 \<and> totalOffensiveLandThreat tc = 50
      \<and> totalDefensiveThreat tc = 0 \<longrightarrow>
      shouldAttack (threatStep game a))"
proof (intro conjI impI)
  assume h: "gameTick game mod 30 = 0 \<and> getOverallVisibility game = Some v \<and> v \<noteq> 0
      \<and> tc = calculateGlobalThreat game v
      \<and> f = (if shouldAttack a then 0.75 else 1.25) * gameLengthFactor game
      \<and> 0 \<le> totalAvailableAntiGroundFirepower tc \<and> 0 \<le> totalAvailableAirPower tc"
  then have t: "gameTick game mod 30 = 0" "getOverallVisibility game = Some v" "v \<noteq> 0"
    and tc: "tc = calculateGlobalThreat game v"
    and f: "f = (if shouldAttack a then 0.75 else 1.25) * gameLengthFactor game"
    and nn: "0 \<le> totalAvailableAntiGroundFirepower tc" "0 \<le> totalAvailableAirPower tc"
    by blast+
  have e: "shouldAttack (threatStep game a) = checkShouldAttack tc f"
    unfolding tc f by (rule threatStep_flag [OF t])
  show "shouldAttack (threatStep game a) \<longleftrightarrow>
         totalAvailableAntiGroundFirepower tc powr 1.025
           > (f * totalOffensiveLandThreat tc + totalDefensiveThreat tc) * 1.1
         \<or> totalAvailableAirPower tc powr 1.025
           > (f * totalOffensiveAntiAirThreat tc + totalDefensiveThreat tc) * 1.1"
    unfolding e by (rule checkShouldAttack_iff [OF nn])
next
  assume h: "gameTick game mod 30 = 0 \<and> getOverallVisibility game = Some v \<and> v \<noteq> 0
      \<and> tc = calculateGlobalThreat game v \<and> \<not> shouldAttack a \<and> gameLengthFactor game = 1
      \<and> totalAvailableAntiGroundFirepower tc = 100 \<and> totalOffensiveLandThreat tc = 50
      \<and> totalDefensiveThreat tc = 0"
  then have t: "gameTick game mod 30 = 0" "getOverallVisibility game = Some v" "v \<noteq> 0"
    and tc: "tc = calculateGlobalThreat game v"
    and d: "\<not> shouldAttack a" "gameLengthFactor game = 1"
    and vals: "totalAvailableAntiGroundFirepower tc = 100" "totalOffensiveLandThreat tc = 50"
      "totalDefensiveThreat tc = 0"
    by blast+
  have e: "shouldAttack (threatStep game a) = checkShouldAttack tc 1.25"
    using threatStep_flag [OF t, of a] d tc by simp
  have "num_gt (Math_pow_1025 100) ((1.25 * 50 + 0) * 1.1)"
    using hundred_powr by (simp add: Math_pow_1025_def num_gt_def)
  then have "checkShouldAttack tc 1.25"
    using vals by (simp add: checkShouldAttack_def Let_def)
  then show "shouldAttack (threatStep game a)"
    using e by simp
qed

theorem attack_flag_rule_witness:
  "shouldAttack (threatStep (gameAt 0 15 (threatOf 100 50 0 0 0 0)) newAwareness)
   \<and> ((100::real) powr 1.025 > (1.25 * 50 + 0) * 1.1 \<or> (0::real) powr 1.025 > (1.25 * 0 + 0) * 1.1)"
proof -
  let ?g = "gameAt 0 15 (threatOf 100 50 0 0 0 0)"
  let ?tc = "threatOf 100 50 0 0 0 0"
  have ev: "gameTick ?g mod 30 = 0" "getOverallVisibility ?g = Some (1 / 2)" "(1 / 2 :: real) \<noteq> 0"
    "?tc = calculateGlobalThreat ?g (1 / 2)"
    by (simp_all add: gameAt_def)
  have st: "\<not> shouldAttack newAwareness" "gameLengthFactor ?g = 1"
    "1.25 = (if shouldAttack newAwareness then 0.75 else 1.25) * gameLengthFactor ?g"
    by (simp_all add: newAwareness_def gameLengthFactor_def gameAt_def)
  have vals: "totalAvailableAntiGroundFirepower ?tc = 100" "totalOffensiveLandThreat ?tc = 50"
    "totalDefensiveThreat ?tc = 0" "totalOffensiveAntiAirThreat ?tc = 0"
    "totalAvailableAirPower ?tc = 0"
    by (simp_all add: threatOf_def)
  note r = attack_flag_rule [of ?g "1 / 2" ?tc "1.25" newAwareness]
  have 1: "shouldAttack (threatStep ?g newAwareness)"
    using r ev st vals by blast
  have "0 \<le> totalAvailableAntiGroundFirepower ?tc" "0 \<le> totalAvailableAirPower ?tc"
    by (simp_all add: threatOf_def)
  then have "shouldAttack (threatStep ?g newAwareness) \<longleftrightarrow>
         totalAvailableAntiGroundFirepower ?tc powr 1.025
           > (1.25 * totalOffensiveLandThreat ?tc + totalDefensiveThreat ?tc) * 1.1
         \<or> totalAvailableAirPower ?tc powr 1.025
           > (1.25 * totalOffensiveAntiAirThreat ?tc + totalDefensiveThreat ?tc) * 1.1"
    using r ev st by blast
  then show ?thesis
    using 1 unfolding vals by blast
qed

text \<open>
  The claim as the specification words it fails: with own air power 1, no enemy anti-air
  threat and an enemy air threat of 10, the code switches to attack, while the rule over
  the enemy's air threat says defend.
\<close>

theorem attack_flag_rule_counterexample:
  "shouldAttack (threatStep (gameAt 0 15 (threatOf 0 0 0 1 0 10)) newAwareness)
   \<and> \<not> spec_attackFlag (threatOf 0 0 0 1 0 10) (1.25 * gameLengthFactor (gameAt 0 15 (threatOf 0 0 0 1 0 10)))"
  by (simp add: threatStep_def THREAT_UPDATE_INTERVAL_TICKS_def Let_def gameAt_def threatOf_def
      newAwareness_def gameLengthFactor_def checkShouldAttack_def Math_pow_1025_def num_gt_def
      spec_attackFlag_def)

text \<open>
  C3, as amended. The game length factor is \<open>max(0, 1 - tick / (15 * 7200))\<close>, with the
  constant 15 whatever the engine's tick rate is; it is the specification's factor when
  the tick rate is 15. At a hysteresis evaluation the factor applied to the enemy's
  offensive threats is 1.25 times it when the flag is defend, and 0.75 times it when the
  flag is attack.
\<close>

theorem game_length_factor_rule:
  "gameLengthFactor game = max 0 (1 - real (gameTick game) / (15 * 7200))
   \<and> (getTickRate game = 15 \<longrightarrow>
        gameLengthFactor game = spec_gameLengthFactor (getTickRate game) (gameTick game))
   \<and> (gameTick game mod 30 = 0 \<and> getOverallVisibility game = Some v \<and> v \<noteq> 0 \<longrightarrow>
        shouldAttack (threatStep game a)
          = checkShouldAttack (calculateGlobalThreat game v)
              ((if shouldAttack a then 0.75 else 1.25) * gameLengthFactor game))"
  using threatStep_flag [of game v a]
  by (simp add: gameLengthFactor_def spec_gameLengthFactor_def)

theorem game_length_factor_rule_witness:
  "gameLengthFactor (gameAt 54000 15 (threatOf 100 50 0 0 0 0)) = 1 / 2
   \<and> spec_gameLengthFactor 15 54000 = 1 / 2
   \<and> shouldAttack (threatStep (gameAt 54000 15 (threatOf 100 50 0 0 0 0)) newAwareness)
      = checkShouldAttack (threatOf 100 50 0 0 0 0) (1.25 * (1 / 2))"
  using game_length_factor_rule [of "gameAt 54000 15 (threatOf 100 50 0 0 0 0)" "1 / 2" newAwareness]
  by (simp add: gameAt_def newAwareness_def spec_gameLengthFactor_def gameLengthFactor_def)

text \<open>
  The claim as the specification words it fails: at tick rate 30 and tick 108000 the code's
  factor is 0, while \<open>max(0, 1 - tick / (tickRate * 7200))\<close> is one half.
\<close>

theorem game_length_factor_rule_counterexample:
  "getTickRate (gameAt 108000 30 (threatOf 100 50 0 0 0 0)) = 30
   \<and> gameLengthFactor (gameAt 108000 30 (threatOf 100 50 0 0 0 0)) = 0
   \<and> spec_gameLengthFactor (getTickRate (gameAt 108000 30 (threatOf 100 50 0 0 0 0)))
        (gameTick (gameAt 108000 30 (threatOf 100 50 0 0 0 0))) = 1 / 2"
  by (simp add: gameAt_def gameLengthFactor_def spec_gameLengthFactor_def)

section \<open>Awareness: theorems on the rebuild of the index\<close>

lemma insertUnits_result:
  "insertUnits q units =
     (if \<forall>u \<in> set units. tile u \<noteq> None then None else Some TypeError,
      q @ List.map_filter unitCircle (takeWhile (\<lambda>u. tile u \<noteq> None) units))"
proof (induction units arbitrary: q)
  case Nil
  then show ?case by simp
next
  case (Cons u units)
  show ?case
  proof (cases "tile u")
    case None
    then show ?thesis by (simp add: unitCircle_def)
  next
    case (Some t)
    then show ?thesis
      using Cons.IH by (simp add: unitCircle_def quadtree_insert_def)
  qed
qed

lemma rebuildStep_lookup_throws:
  assumes "lookupAll (tryGetUnitData game) (getVisibleUnits game) = Inl e"
  shows "rebuildStep game self a = a\<lparr>logged := logged a @ [CaughtError (getVisibleUnits game)]\<rparr>"
  using assms by (simp add: rebuildStep_def Let_def)

lemma rebuildStep_rebuild_throws:
  assumes "lookupAll (tryGetUnitData game) (getVisibleUnits game) = Inr found"
    and "units = hostileUnitsOf (hostilePlayerNames game self) found"
    and "fst (rebuildQuadtree (hostileQuadTree a) units) = Some e"
  shows "rebuildStep game self a =
     a\<lparr>hostileQuadTree := List.map_filter unitCircle (takeWhile (\<lambda>u. tile u \<noteq> None) units),
       logged := logged a @ [CaughtError (getVisibleUnits game)]\<rparr>"
proof -
  have "rebuildQuadtree (hostileQuadTree a) units =
      (Some e, List.map_filter unitCircle (takeWhile (\<lambda>u. tile u \<noteq> None) units))"
    using assms(3) by (simp add: rebuildQuadtree_def quadtree_clear_def insertUnits_result)
  then show ?thesis
    using assms(1,2) by (simp add: rebuildStep_def Let_def)
qed

lemma threatStep_ignores_index:
  "shouldAttack (threatStep game (a\<lparr>hostileQuadTree := q, logged := l\<rparr>)) = shouldAttack (threatStep game a)
   \<and> threatCache (threatStep game (a\<lparr>hostileQuadTree := q, logged := l\<rparr>)) = threatCache (threatStep game a)
   \<and> mainRallyPoint (threatStep game (a\<lparr>hostileQuadTree := q, logged := l\<rparr>)) = mainRallyPoint a"
  by (simp add: threatStep_def Let_def split: option.splits)

lemma rebuildStep_shape:
  "\<exists>q l. rebuildStep game self a = a\<lparr>hostileQuadTree := q, logged := l\<rparr>"
proof (cases "lookupAll (tryGetUnitData game) (getVisibleUnits game)")
  case (Inl e)
  have "rebuildStep game self a
      = a\<lparr>hostileQuadTree := hostileQuadTree a, logged := logged a @ [CaughtError (getVisibleUnits game)]\<rparr>"
    using Inl by (simp add: rebuildStep_def Let_def)
  then show ?thesis by blast
next
  case (Inr found)
  obtain r q where rq: "rebuildQuadtree (hostileQuadTree a)
      (hostileUnitsOf (hostilePlayerNames game self) found) = (r, q)"
    by (cases "rebuildQuadtree (hostileQuadTree a) (hostileUnitsOf (hostilePlayerNames game self) found)")
  show ?thesis
  proof (cases r)
    case None
    then have "rebuildStep game self a = a\<lparr>hostileQuadTree := q, logged := logged a\<rparr>"
      using Inr rq by (simp add: rebuildStep_def Let_def)
    then show ?thesis by blast
  next
    case (Some e)
    then have "rebuildStep game self a
        = a\<lparr>hostileQuadTree := q, logged := logged a @ [CaughtError (getVisibleUnits game)]\<rparr>"
      using Inr rq by (simp add: rebuildStep_def Let_def)
    then show ?thesis by blast
  qed
qed

lemma onAiUpdate_later_steps:
  "shouldAttack (Awareness_onAiUpdate game self a) = shouldAttack (threatStep game a)
   \<and> threatCache (Awareness_onAiUpdate game self a) = threatCache (threatStep game a)
   \<and> mainRallyPoint (Awareness_onAiUpdate game self a) = mainRallyPoint (rallyStep game a)"
proof -
  obtain q l where s: "rebuildStep game self a = a\<lparr>hostileQuadTree := q, logged := l\<rparr>"
    using rebuildStep_shape by blast
  show ?thesis
    unfolding Awareness_onAiUpdate_def s
    using threatStep_ignores_index [where game = game and a = a and q = q and l = l]
    by (simp add: rallyStep_def)
qed

text \<open>
  C7, as amended. An exception thrown while the hostile units are looked up, or while
  the index is rebuilt, is caught and reported, and the update goes on: the attack flag,
  the threat snapshot and the rally point come out as the later steps compute them from
  the state before the update. When the lookup throws, the rebuild has not started and
  the previous index is retained unchanged. When the rebuild throws, the index has
  already been cleared: it is left holding exactly the circles of the hostile units
  that precede the first unit without a tile.
\<close>

theorem rebuild_failure_is_caught:
  "(lookupAll (tryGetUnitData game) (getVisibleUnits game) = Inl e \<longrightarrow>
       hostileQuadTree (rebuildStep game self a) = hostileQuadTree a
     \<and> logged (rebuildStep game self a) = logged a @ [CaughtError (getVisibleUnits game)])
   \<and> (lookupAll (tryGetUnitData game) (getVisibleUnits game) = Inr found
      \<and> units = hostileUnitsOf (hostilePlayerNames game self) found
      \<and> fst (rebuildQuadtree (hostileQuadTree a) units) = Some e' \<longrightarrow>
       hostileQuadTree (rebuildStep game self a)
         = List.map_filter unitCircle (takeWhile (\<lambda>u. tile u \<noteq> None) units)
     \<and> logged (rebuildStep game self a) = logged a @ [CaughtError (getVisibleUnits game)])
   \<and> shouldAttack (Awareness_onAiUpdate game self a) = shouldAttack (threatStep game a)
   \<and> threatCache (Awareness_onAiUpdate game self a) = threatCache (threatStep game a)
   \<and> mainRallyPoint (Awareness_onAiUpdate game self a) = mainRallyPoint (rallyStep game a)"
proof (intro conjI impI)
  assume "lookupAll (tryGetUnitData game) (getVisibleUnits game) = Inl e"
  then have r: "rebuildStep game self a = a\<lparr>logged := logged a @ [CaughtError (getVisibleUnits game)]\<rparr>"
    by (rule rebuildStep_lookup_throws)
  show "hostileQuadTree (rebuildStep game self a) = hostileQuadTree a"
    unfolding r by simp
  show "logged (rebuildStep game self a) = logged a @ [CaughtError (getVisibleUnits game)]"
    unfolding r by simp
next
  assume "lookupAll (tryGetUnitData game) (getVisibleUnits game) = Inr found
      \<and> units = hostileUnitsOf (hostilePlayerNames game self) found
      \<and> fst (rebuildQuadtree (hostileQuadTree a) units) = Some e'"
  then have r: "rebuildStep game self a =
     a\<lparr>hostileQuadTree := List.map_filter unitCircle (takeWhile (\<lambda>u. tile u \<noteq> None) units),
       logged := logged a @ [CaughtError (getVisibleUnits game)]\<rparr>"
    using rebuildStep_rebuild_throws by blast
  show "hostileQuadTree (rebuildStep game self a)
         = List.map_filter unitCircle (takeWhile (\<lambda>u. tile u \<noteq> None) units)"
    unfolding r by simp
  show "logged (rebuildStep game self a) = logged a @ [CaughtError (getVisibleUnits game)]"
    unfolding r by simp
next
  show "shouldAttack (Awareness_onAiUpdate game self a) = shouldAttack (threatStep game a)"
    "threatCache (Awareness_onAiUpdate game self a) = threatCache (threatStep game a)"
    "mainRallyPoint (Awareness_onAiUpdate game self a) = mainRallyPoint (rallyStep game a)"
    using onAiUpdate_later_steps by blast+
qed

lemma tileless_hostiles:
  "lookupAll (tryGetUnitData tilelessGame) (getVisibleUnits tilelessGame)
     = Inr [Some (groundUnitAt 1 3 0), Some (tilelessUnit 2)]
   \<and> hostileUnitsOf (hostilePlayerNames tilelessGame ''me'')
        [Some (groundUnitAt 1 3 0), Some (tilelessUnit 2)]
     = [groundUnitAt 1 3 0, tilelessUnit 2]"
  by (simp add: tilelessGame_def gameAt_def hostileUnitsOf_def hostilePlayerNames_def
      isHostileUnit_def groundUnitAt_def tilelessUnit_def)

theorem rebuild_failure_is_caught_witness:
  "hostileQuadTree (rebuildStep throwingGame ''me'' seenAwareness) = twoCircles
   \<and> logged (rebuildStep throwingGame ''me'' seenAwareness) = [CaughtError [1, 2]]
   \<and> hostileQuadTree (rebuildStep tilelessGame ''me'' seenAwareness)
       = [\<lparr>cx = 3, cy = 0, cr = 1, cdata = Some 1\<rparr>]
   \<and> threatCache (Awareness_onAiUpdate throwingGame ''me'' seenAwareness)
       = Some (threatOf 100 50 0 0 0 0)
   \<and> shouldAttack (Awareness_onAiUpdate throwingGame ''me'' seenAwareness)"
proof -
  have l: "lookupAll (tryGetUnitData throwingGame) (getVisibleUnits throwingGame) = Inl EngineError"
    by (simp add: throwingGame_def gameAt_def)
  have s: "hostileQuadTree seenAwareness = twoCircles" "logged seenAwareness = []"
    "\<not> shouldAttack seenAwareness"
    by (simp_all add: seenAwareness_def newAwareness_def)
  have v: "getVisibleUnits throwingGame = [1, 2]" "getVisibleUnits tilelessGame = [1, 2]"
    by (simp_all add: throwingGame_def tilelessGame_def)
  have f: "fst (rebuildQuadtree (hostileQuadTree seenAwareness) [groundUnitAt 1 3 0, tilelessUnit 2])
      = Some TypeError"
    by (simp add: rebuildQuadtree_def quadtree_clear_def quadtree_insert_def unitCircle_def
        groundUnitAt_def tilelessUnit_def)
  have m: "List.map_filter unitCircle
      (takeWhile (\<lambda>u. tile u \<noteq> None) [groundUnitAt 1 3 0, tilelessUnit 2])
      = [\<lparr>cx = 3, cy = 0, cr = 1, cdata = Some 1\<rparr>]"
    by (simp add: unitCircle_def groundUnitAt_def tilelessUnit_def)
  have th: "threatCache (threatStep throwingGame seenAwareness) = Some (threatOf 100 50 0 0 0 0)"
    by (simp add: threatStep_def THREAT_UPDATE_INTERVAL_TICKS_def throwingGame_def gameAt_def
        Let_def)
  have at: "shouldAttack (threatStep throwingGame seenAwareness)
      = checkShouldAttack (threatOf 100 50 0 0 0 0) (1.25 * gameLengthFactor throwingGame)"
    using threatStep_flag [of throwingGame "1 / 2" seenAwareness] s
    by (simp add: throwingGame_def gameAt_def)
  have "100 powr 1.025 > (0::real)" by simp
  then have ck: "checkShouldAttack (threatOf 100 50 0 0 0 0) (1.25 * gameLengthFactor throwingGame)"
    using hundred_powr
    by (simp add: checkShouldAttack_def Math_pow_1025_def num_gt_def threatOf_def
        gameLengthFactor_def throwingGame_def gameAt_def)
  note a = rebuild_failure_is_caught [of throwingGame EngineError "''me''" seenAwareness]
  note b = rebuild_failure_is_caught [of tilelessGame _ "''me''" seenAwareness
      "[Some (groundUnitAt 1 3 0), Some (tilelessUnit 2)]" "[groundUnitAt 1 3 0, tilelessUnit 2]"
      TypeError]
  show ?thesis
    using a b l s v f m th at ck tileless_hostiles by simp
qed

text \<open>
  The claim as the specification words it fails: the index held two circles, the rebuild
  throws at the second hostile unit, and the index is left with the circle of the first
  one only, not with the previous tick's content.
\<close>

theorem rebuild_failure_is_caught_counterexample:
  "fst (rebuildQuadtree (hostileQuadTree seenAwareness) [groundUnitAt 1 3 0, tilelessUnit 2])
     = Some TypeError
   \<and> hostileQuadTree seenAwareness = twoCircles
   \<and> hostileQuadTree (rebuildStep tilelessGame ''me'' seenAwareness)
     = [\<lparr>cx = 3, cy = 0, cr = 1, cdata = Some 1\<rparr>]
   \<and> hostileQuadTree (rebuildStep tilelessGame ''me'' seenAwareness) \<noteq> hostileQuadTree seenAwareness
   \<and> logged (rebuildStep tilelessGame ''me'' seenAwareness) = [CaughtError [1, 2]]"
proof -
  have t: "rebuildQuadtree twoCircles [groundUnitAt 1 3 0, tilelessUnit 2]
      = (Some TypeError, [\<lparr>cx = 3, cy = 0, cr = 1, cdata = Some 1\<rparr>])"
    by (simp add: rebuildQuadtree_def quadtree_clear_def quadtree_insert_def unitCircle_def
        groundUnitAt_def tilelessUnit_def)
  have s: "hostileQuadTree seenAwareness = twoCircles" "logged seenAwareness = []"
    by (simp_all add: seenAwareness_def newAwareness_def)
  have v: "getVisibleUnits tilelessGame = [1, 2]"
    by (simp add: tilelessGame_def)
  have r: "rebuildStep tilelessGame ''me'' seenAwareness
      = seenAwareness\<lparr>hostileQuadTree := [\<lparr>cx = 3, cy = 0, cr = 1, cdata = Some 1\<rparr>],
          logged := [CaughtError [1, 2]]\<rparr>"
    using tileless_hostiles t s v by (simp add: rebuildStep_def Let_def)
  show ?thesis
    unfolding r using t s by (simp add: twoCircles_def)
qed

section \<open>Combat squad behaviour\<close>

definition TARGET_UPDATE_INTERVAL_TICKS :: nat where
  "TARGET_UPDATE_INTERVAL_TICKS = 10"

definition GRAB_INTERVAL_TICKS :: nat where
  "GRAB_INTERVAL_TICKS = 10"

definition GRAB_RADIUS :: real where
  "GRAB_RADIUS = 20"

definition MIN_GATHER_RADIUS :: real where
  "MIN_GATHER_RADIUS = 5"

definition MAX_GATHER_RADIUS :: real where
  "MAX_GATHER_RADIUS = 15"

definition GATHER_RATIO :: real where
  "GATHER_RATIO = 10"

datatype SquadState = Gathering | Attacking

datatype DebugTarget = TargetUnit nat | TargetPoint Point2D

record CombatSquad =
  lastGrab :: "nat option"
  lastCommand :: "nat option"
  squadState :: SquadState
  debugLastTarget :: "DebugTarget option"
  rallyArea :: Point2D
  targetArea :: "Point2D option"

text \<open>The constructor: nothing grabbed or commanded yet, gathering.\<close>

definition newCombatSquad :: "Point2D \<Rightarrow> Point2D \<Rightarrow> CombatSquad" where
  "newCombatSquad rally target =
     \<lparr>lastGrab = None, lastCommand = None, squadState = Gathering, debugLastTarget = None,
      rallyArea = rally, targetArea = Some target\<rparr>"

text \<open>What the behaviour pushes to the action batcher, and what it returns.\<close>

datatype BatchableAction = MoveMicro nat Point2D | AttackMicro nat nat

datatype MissionAction = Noop | GrabCombatants Point2D real

text \<open>
  What the behaviour reads besides the mission: the game, whether the map has a tile at
  a point, the player's start location, and the best hostile near a unit at a tile.
  The last stands for the query of the awareness and \<open>maxBy\<close> over \<open>getAttackWeight\<close>,
  helpers that are not among the sources. The mission offers the accessors of \<open>Squad\<close>.
\<close>

record CombatWorld =
  gameApi :: GameApi
  tileExists :: "Point2D \<Rightarrow> bool"
  startLocation :: Point2D
  bestUnit :: "UnitData \<Rightarrow> Tile \<Rightarrow> nat option"

definition getUnitsMatching :: "GameApi \<Rightarrow> (UnitData \<Rightarrow> bool) \<Rightarrow> Squad \<Rightarrow> UnitData list" where
  "getUnitsMatching g p m =
     List.map_filter (\<lambda>unit. case unit of None \<Rightarrow> None | Some u \<Rightarrow> if p u then Some u else None)
       (map (getUnitData g) (unitIds m))"

definition combatants :: "GameApi \<Rightarrow> Squad \<Rightarrow> UnitData list" where
  "combatants g m = getUnitsMatching g (\<lambda>r. isSelectableCombatant (rules r)) m"

definition groundUnits :: "GameApi \<Rightarrow> Squad \<Rightarrow> UnitData list" where
  "groundUnits g m =
     getUnitsMatching g
       (\<lambda>r. isSelectableCombatant (rules r)
            \<and> (movementZone (rules r) = Infantry \<or> movementZone (rules r) = Normal
               \<or> movementZone (rules r) = InfantryDestroyer)) m"

text \<open>\<open>!last || tick > last + interval\<close>: a missing tick and the tick 0 are both falsy.\<close>

definition dueSince :: "nat option \<Rightarrow> nat \<Rightarrow> nat \<Rightarrow> bool" where
  "dueSince previous tick interval =
     (case previous of None \<Rightarrow> True | Some l \<Rightarrow> l = 0 \<or> tick > l + interval)"

text \<open>
  \<open>centerOfMass && maxDistance && getTile(...) !== undefined && maxDistance > required\<close>:
  the center when the whole condition holds, \<open>None\<close> when it fails. A spread of 0 is falsy.
\<close>

definition spreadBeyond :: "CombatWorld \<Rightarrow> Squad \<Rightarrow> real \<Rightarrow> Point2D option" where
  "spreadBeyond w m requiredGatherRadius =
     (case centerOfMass m of
        None \<Rightarrow> None
      | Some c \<Rightarrow>
          (case maxDistanceToCenterOfMass m of
             None \<Rightarrow> None
           | Some maxDistance \<Rightarrow>
               if maxDistance \<noteq> 0 \<and> tileExists w c \<and> maxDistance > requiredGatherRadius
               then Some c else None))"

text \<open>
  The loop over the combatants while attacking: destructuring \<open>unit.tile\<close> of a unit
  without a tile throws.
\<close>

fun attackOrders ::
    "CombatWorld \<Rightarrow> Point2D \<Rightarrow> UnitData list \<Rightarrow> BatchableAction list \<times> DebugTarget option
     \<Rightarrow> error + BatchableAction list \<times> DebugTarget option" where
  "attackOrders w targetPoint [] acc = Inr acc"
| "attackOrders w targetPoint (unit # units) (pushed, dbg) =
     (case tile unit of
        None \<Rightarrow> Inl TypeError
      | Some t \<Rightarrow>
          (case bestUnit w unit t of
             Some target \<Rightarrow>
               attackOrders w targetPoint units
                 (pushed @ [AttackMicro (uid unit) target], Some (TargetUnit target))
           | None \<Rightarrow>
               attackOrders w targetPoint units
                 (pushed @ [MoveMicro (uid unit) targetPoint], Some (TargetPoint targetPoint))))"

text \<open>
  The throttled evaluation (the body of the first \<open>if\<close>). The boolean of the result says
  that the source returned \<open>noop()\<close> from inside it.
\<close>

definition evaluateState ::
    "CombatWorld \<Rightarrow> Squad \<Rightarrow> CombatSquad \<Rightarrow> error + bool \<times> CombatSquad \<times> BatchableAction list" where
  "evaluateState w m b =
     (let units = combatants (gameApi w) m;
          n = length (groundUnits (gameApi w) m)
      in if squadState b = Gathering then
           (let requiredGatherRadius = sqrt (real n) * GATHER_RATIO + MIN_GATHER_RADIUS
            in case spreadBeyond w m requiredGatherRadius of
                 Some c \<Rightarrow> Inr (False, b, map (\<lambda>unit. MoveMicro (uid unit) c) units)
               | None \<Rightarrow> Inr (False, b\<lparr>squadState := Attacking\<rparr>, []))
         else
           (let targetPoint = (case targetArea b of Some p \<Rightarrow> p | None \<Rightarrow> startLocation w);
                requiredGatherRadius = sqrt (real n) * GATHER_RATIO + MAX_GATHER_RADIUS
            in case spreadBeyond w m requiredGatherRadius of
                 Some c \<Rightarrow> Inr (True, b\<lparr>squadState := Gathering\<rparr>, [])
               | None \<Rightarrow>
                   (case attackOrders w targetPoint units ([], debugLastTarget b) of
                      Inl e \<Rightarrow> Inl e
                    | Inr (pushed, dbg) \<Rightarrow> Inr (False, b\<lparr>debugLastTarget := dbg\<rparr>, pushed))))"

definition CombatSquad_onAiUpdate ::
    "CombatWorld \<Rightarrow> Squad \<Rightarrow> CombatSquad
     \<Rightarrow> error + MissionAction \<times> CombatSquad \<times> BatchableAction list" where
  "CombatSquad_onAiUpdate w m b =
     (let tick = getCurrentTick (gameApi w);
          evaluated =
            (if length (unitIds m) > 0 \<and> dueSince (lastCommand b) tick TARGET_UPDATE_INTERVAL_TICKS
             then evaluateState w m (b\<lparr>lastCommand := Some tick\<rparr>)
             else Inr (False, b, []))
      in case evaluated of
           Inl e \<Rightarrow> Inl e
         | Inr (returned, b1, pushed) \<Rightarrow>
             if returned then Inr (Noop, b1, pushed)
             else if dueSince (lastGrab b1) tick GRAB_INTERVAL_TICKS
             then Inr (GrabCombatants
                         (case centerOfMass m of Some c \<Rightarrow> c | None \<Rightarrow> rallyArea b1)
                         GRAB_RADIUS,
                       b1\<lparr>lastGrab := Some tick\<rparr>, pushed)
             else Inr (Noop, b1, pushed))"

text \<open>Projections of the result of an update; \<open>None\<close> when the update threw.\<close>

definition actionOf :: "error + MissionAction \<times> CombatSquad \<times> BatchableAction list \<Rightarrow> MissionAction option" where
  "actionOf r = (case r of Inl e \<Rightarrow> None | Inr (act, b, pushed) \<Rightarrow> Some act)"

definition behaviourOf :: "error + MissionAction \<times> CombatSquad \<times> BatchableAction list \<Rightarrow> CombatSquad option" where
  "behaviourOf r = (case r of Inl e \<Rightarrow> None | Inr (act, b, pushed) \<Rightarrow> Some b)"

definition pushedOf :: "error + MissionAction \<times> CombatSquad \<times> BatchableAction list \<Rightarrow> BatchableAction list option" where
  "pushedOf r = (case r of Inl e \<Rightarrow> None | Inr (act, b, pushed) \<Rightarrow> Some pushed)"

text \<open>The evaluation of this update is due: the mission has members and the throttle lets it run.\<close>

definition commandsDue :: "CombatWorld \<Rightarrow> Squad \<Rightarrow> CombatSquad \<Rightarrow> bool" where
  "commandsDue w m b =
     (unitIds m \<noteq> [] \<and> dueSince (lastCommand b) (getCurrentTick (gameApi w)) TARGET_UPDATE_INTERVAL_TICKS)"

text \<open>The evaluation of this update reverts the squad from attacking to gathering.\<close>

definition revertsToGathering :: "CombatWorld \<Rightarrow> Squad \<Rightarrow> CombatSquad \<Rightarrow> bool" where
  "revertsToGathering w m b =
     (commandsDue w m b \<and> squadState b = Attacking
      \<and> (\<exists>c d. centerOfMass m = Some c \<and> maxDistanceToCenterOfMass m = Some d \<and> tileExists w c
            \<and> d > sqrt (real (length (groundUnits (gameApi w) m))) * GATHER_RATIO + MAX_GATHER_RADIUS))"

text \<open>The evaluation of this update runs the attack loop, which reads the tile of every combatant.\<close>

definition runsAttackLoop :: "CombatWorld \<Rightarrow> Squad \<Rightarrow> CombatSquad \<Rightarrow> bool" where
  "runsAttackLoop w m b =
     (commandsDue w m b \<and> squadState b = Attacking \<and> \<not> revertsToGathering w m b)"

definition combatWorld :: "GameApi \<Rightarrow> CombatWorld" where
  "combatWorld g =
     \<lparr>gameApi = g, tileExists = (\<lambda>p. True), startLocation = (0, 0), bestUnit = (\<lambda>u t. None)\<rparr>"

definition spreadSquad :: "real \<Rightarrow> Squad" where
  "spreadSquad d = lineSquad\<lparr>centerOfMass := Some (2, 0), maxDistanceToCenterOfMass := Some d\<rparr>"

definition attackingSquad :: CombatSquad where
  "attackingSquad = (newCombatSquad (0, 0) (9, 9))\<lparr>squadState := Attacking\<rparr>"

text \<open>A squad whose only member cannot move: its cohesion is undefined after the update.\<close>

definition stuckWorld :: GameApi where
  "stuckWorld =
     \<lparr>getUnitData = (\<lambda>i. if i = 1 then Some ((groundUnitAt 1 0 0)\<lparr>canMove := False\<rparr>) else None),
      getCurrentTick = 6, missionIsActive = (\<lambda>_. True)\<rparr>"

definition stuckSquad :: Squad where
  "stuckSquad = snd (Squad_onAiUpdate stuckWorld (addUnit 1 (newSquad (Some 1) False)))"

section \<open>Combat squad behaviour: theorems\<close>

lemma spreadBeyond_Some:
  assumes "centerOfMass m = Some c" and "maxDistanceToCenterOfMass m = Some d"
    and "tileExists w c" and "d > req" and "0 \<le> req"
  shows "spreadBeyond w m req = Some c"
  using assms by (simp add: spreadBeyond_def)

lemma spreadBeyond_Some_iff:
  assumes "0 \<le> req"
  shows "spreadBeyond w m req \<noteq> None \<longleftrightarrow>
     (\<exists>c d. centerOfMass m = Some c \<and> maxDistanceToCenterOfMass m = Some d \<and> tileExists w c \<and> d > req)"
  using assms by (auto simp add: spreadBeyond_def split: option.splits)

lemma spreadBeyond_None:
  assumes "centerOfMass m = None \<or> maxDistanceToCenterOfMass m = None
      \<or> (\<exists>c. centerOfMass m = Some c \<and> \<not> tileExists w c)
      \<or> (\<exists>d. maxDistanceToCenterOfMass m = Some d \<and> d \<le> req)"
  shows "spreadBeyond w m req = None"
  using assms by (auto simp add: spreadBeyond_def split: option.splits)

lemma gather_radius_nonneg:
  "0 \<le> sqrt (real n) * GATHER_RATIO + MIN_GATHER_RADIUS"
  "0 \<le> sqrt (real n) * GATHER_RATIO + MAX_GATHER_RADIUS"
  by (simp_all add: GATHER_RATIO_def MIN_GATHER_RADIUS_def MAX_GATHER_RADIUS_def)

lemma attackOrders_ok:
  "\<forall>u \<in> set units. tile u \<noteq> None \<Longrightarrow> \<exists>res. attackOrders w tp units acc = Inr res"
proof (induction units arbitrary: acc)
  case Nil
  then show ?case by simp
next
  case (Cons u units)
  obtain pushed dbg where acc: "acc = (pushed, dbg)" by (cases acc)
  from Cons.prems obtain t where t: "tile u = Some t" by auto
  from Cons.prems have rest: "\<forall>u \<in> set units. tile u \<noteq> None" by simp
  show ?case
    unfolding acc using t Cons.IH [OF rest] by (simp split: option.splits)
qed

lemma onAiUpdate_gathering_spread:
  assumes "commandsDue w m b" and "squadState b = Gathering"
    and "spreadBeyond w m (sqrt (real (length (groundUnits (gameApi w) m))) * GATHER_RATIO + MIN_GATHER_RADIUS) = Some c"
  shows "\<exists>act b'. CombatSquad_onAiUpdate w m b
      = Inr (act, b', map (\<lambda>unit. MoveMicro (uid unit) c) (combatants (gameApi w) m))
      \<and> squadState b' = Gathering"
  using assms
  by (simp add: CombatSquad_onAiUpdate_def commandsDue_def evaluateState_def Let_def)

lemma onAiUpdate_gathering_close:
  assumes "commandsDue w m b" and "squadState b = Gathering"
    and "spreadBeyond w m (sqrt (real (length (groundUnits (gameApi w) m))) * GATHER_RATIO + MIN_GATHER_RADIUS) = None"
  shows "\<exists>act b'. CombatSquad_onAiUpdate w m b = Inr (act, b', []) \<and> squadState b' = Attacking"
  using assms
  by (simp add: CombatSquad_onAiUpdate_def commandsDue_def evaluateState_def Let_def)

lemma onAiUpdate_reverts:
  assumes "commandsDue w m b" and "squadState b = Attacking"
    and "spreadBeyond w m (sqrt (real (length (groundUnits (gameApi w) m))) * GATHER_RATIO + MAX_GATHER_RADIUS) = Some c"
  shows "CombatSquad_onAiUpdate w m b
      = Inr (Noop, b\<lparr>lastCommand := Some (getCurrentTick (gameApi w)), squadState := Gathering\<rparr>, [])"
  using assms
  by (simp add: CombatSquad_onAiUpdate_def commandsDue_def evaluateState_def Let_def)

lemma attackOrders_length:
  "attackOrders w tp units acc = Inr res \<Longrightarrow> length (fst res) = length (fst acc) + length units"
proof (induction units arbitrary: acc)
  case Nil
  then show ?case by auto
next
  case (Cons u units)
  obtain pushed dbg where acc: "acc = (pushed, dbg)" by (cases acc)
  show ?case
  proof (cases "tile u")
    case None
    then show ?thesis using Cons.prems acc by simp
  next
    case (Some t)
    show ?thesis
    proof (cases "bestUnit w u t")
      case None
      then show ?thesis
        using Cons.prems acc Some
          Cons.IH [of "(pushed @ [MoveMicro (uid u) tp], Some (TargetPoint tp))"]
        by simp
    next
      case (Some target)
      then show ?thesis
        using Cons.prems acc \<open>tile u = Some t\<close>
          Cons.IH [of "(pushed @ [AttackMicro (uid u) target], Some (TargetUnit target))"]
        by simp
    qed
  qed
qed

lemma onAiUpdate_attacking_throws:
  assumes "commandsDue w m b" and "squadState b = Attacking"
    and "spreadBeyond w m (sqrt (real (length (groundUnits (gameApi w) m))) * GATHER_RATIO + MAX_GATHER_RADIUS) = None"
    and "attackOrders w (case targetArea b of Some p \<Rightarrow> p | None \<Rightarrow> startLocation w)
           (combatants (gameApi w) m) ([], debugLastTarget b) = Inl e"
  shows "CombatSquad_onAiUpdate w m b = Inl e"
  using assms
  by (simp add: CombatSquad_onAiUpdate_def commandsDue_def evaluateState_def Let_def)

lemma onAiUpdate_attacking_stays:
  assumes "commandsDue w m b" and "squadState b = Attacking"
    and "spreadBeyond w m (sqrt (real (length (groundUnits (gameApi w) m))) * GATHER_RATIO + MAX_GATHER_RADIUS) = None"
    and "attackOrders w (case targetArea b of Some p \<Rightarrow> p | None \<Rightarrow> startLocation w)
           (combatants (gameApi w) m) ([], debugLastTarget b) = Inr (pushed, dbg)"
  shows "\<exists>act b'. CombatSquad_onAiUpdate w m b = Inr (act, b', pushed) \<and> squadState b' = Attacking"
  using assms
  by (simp add: CombatSquad_onAiUpdate_def commandsDue_def evaluateState_def Let_def)

lemma gathering_far:
  assumes due: "commandsDue w m b"
  shows "squadState b = Gathering \<and> centerOfMass m = Some c \<and> maxDistanceToCenterOfMass m = Some d
        \<and> tileExists w c
        \<and> d > sqrt (real (length (groundUnits (gameApi w) m))) * GATHER_RATIO + MIN_GATHER_RADIUS \<longrightarrow>
          map_option squadState (behaviourOf (CombatSquad_onAiUpdate w m b)) = Some Gathering
        \<and> pushedOf (CombatSquad_onAiUpdate w m b)
            = Some (map (\<lambda>unit. MoveMicro (uid unit) c) (combatants (gameApi w) m))"
proof
  assume a: "squadState b = Gathering \<and> centerOfMass m = Some c \<and> maxDistanceToCenterOfMass m = Some d
        \<and> tileExists w c
        \<and> d > sqrt (real (length (groundUnits (gameApi w) m))) * GATHER_RATIO + MIN_GATHER_RADIUS"
  then have "spreadBeyond w m
      (sqrt (real (length (groundUnits (gameApi w) m))) * GATHER_RATIO + MIN_GATHER_RADIUS) = Some c"
    using spreadBeyond_Some gather_radius_nonneg(1) by blast
  then obtain act b' where
    "CombatSquad_onAiUpdate w m b
       = Inr (act, b', map (\<lambda>unit. MoveMicro (uid unit) c) (combatants (gameApi w) m))"
    "squadState b' = Gathering"
    using onAiUpdate_gathering_spread [OF due, of c] a by blast
  then show "map_option squadState (behaviourOf (CombatSquad_onAiUpdate w m b)) = Some Gathering
        \<and> pushedOf (CombatSquad_onAiUpdate w m b)
            = Some (map (\<lambda>unit. MoveMicro (uid unit) c) (combatants (gameApi w) m))"
    by (simp add: behaviourOf_def pushedOf_def)
qed

lemma gathering_otherwise:
  assumes due: "commandsDue w m b"
  shows "squadState b = Gathering
        \<and> (centerOfMass m = None \<or> maxDistanceToCenterOfMass m = None
           \<or> (\<exists>c'. centerOfMass m = Some c' \<and> \<not> tileExists w c')
           \<or> (\<exists>d'. maxDistanceToCenterOfMass m = Some d'
                 \<and> d' \<le> sqrt (real (length (groundUnits (gameApi w) m))) * GATHER_RATIO
                        + MIN_GATHER_RADIUS)) \<longrightarrow>
          map_option squadState (behaviourOf (CombatSquad_onAiUpdate w m b)) = Some Attacking
        \<and> pushedOf (CombatSquad_onAiUpdate w m b) = Some []"
proof
  assume a: "squadState b = Gathering
        \<and> (centerOfMass m = None \<or> maxDistanceToCenterOfMass m = None
           \<or> (\<exists>c'. centerOfMass m = Some c' \<and> \<not> tileExists w c')
           \<or> (\<exists>d'. maxDistanceToCenterOfMass m = Some d'
                 \<and> d' \<le> sqrt (real (length (groundUnits (gameApi w) m))) * GATHER_RATIO
                        + MIN_GATHER_RADIUS))"
  then have "spreadBeyond w m
      (sqrt (real (length (groundUnits (gameApi w) m))) * GATHER_RATIO + MIN_GATHER_RADIUS) = None"
    using spreadBeyond_None by blast
  then obtain act b' where "CombatSquad_onAiUpdate w m b = Inr (act, b', [])"
    "squadState b' = Attacking"
    using onAiUpdate_gathering_close [OF due] a by blast
  then show "map_option squadState (behaviourOf (CombatSquad_onAiUpdate w m b)) = Some Attacking
        \<and> pushedOf (CombatSquad_onAiUpdate w m b) = Some []"
    by (simp add: behaviourOf_def pushedOf_def)
qed

lemma attacking_far:
  assumes due: "commandsDue w m b"
  shows "squadState b = Attacking \<and> centerOfMass m = Some c \<and> maxDistanceToCenterOfMass m = Some d
        \<and> tileExists w c
        \<and> d > sqrt (real (length (groundUnits (gameApi w) m))) * GATHER_RATIO + MAX_GATHER_RADIUS \<longrightarrow>
          map_option squadState (behaviourOf (CombatSquad_onAiUpdate w m b)) = Some Gathering
        \<and> pushedOf (CombatSquad_onAiUpdate w m b) = Some []
        \<and> actionOf (CombatSquad_onAiUpdate w m b) = Some Noop"
proof
  assume a: "squadState b = Attacking \<and> centerOfMass m = Some c \<and> maxDistanceToCenterOfMass m = Some d
        \<and> tileExists w c
        \<and> d > sqrt (real (length (groundUnits (gameApi w) m))) * GATHER_RATIO + MAX_GATHER_RADIUS"
  then have "spreadBeyond w m
      (sqrt (real (length (groundUnits (gameApi w) m))) * GATHER_RATIO + MAX_GATHER_RADIUS) = Some c"
    using spreadBeyond_Some gather_radius_nonneg(2) by blast
  then have "CombatSquad_onAiUpdate w m b
      = Inr (Noop, b\<lparr>lastCommand := Some (getCurrentTick (gameApi w)), squadState := Gathering\<rparr>, [])"
    using onAiUpdate_reverts [OF due, of c] a by blast
  then show "map_option squadState (behaviourOf (CombatSquad_onAiUpdate w m b)) = Some Gathering
        \<and> pushedOf (CombatSquad_onAiUpdate w m b) = Some []
        \<and> actionOf (CombatSquad_onAiUpdate w m b) = Some Noop"
    by (simp add: behaviourOf_def pushedOf_def actionOf_def)
qed

lemma attacking_otherwise:
  assumes due: "commandsDue w m b"
  shows "squadState b = Attacking
        \<and> (centerOfMass m = None \<or> maxDistanceToCenterOfMass m = None
           \<or> (\<exists>c'. centerOfMass m = Some c' \<and> \<not> tileExists w c')
           \<or> (\<exists>d'. maxDistanceToCenterOfMass m = Some d'
                 \<and> d' \<le> sqrt (real (length (groundUnits (gameApi w) m))) * GATHER_RATIO
                        + MAX_GATHER_RADIUS)) \<longrightarrow>
          map_option squadState (behaviourOf (CombatSquad_onAiUpdate w m b)) \<noteq> Some Gathering
        \<and> ((\<forall>u \<in> set (combatants (gameApi w) m). tile u \<noteq> None) \<longrightarrow>
              map_option squadState (behaviourOf (CombatSquad_onAiUpdate w m b)) = Some Attacking
            \<and> map_option length (pushedOf (CombatSquad_onAiUpdate w m b))
                = Some (length (combatants (gameApi w) m)))"
proof
  let ?tp = "case targetArea b of Some p \<Rightarrow> p | None \<Rightarrow> startLocation w"
  let ?run = "attackOrders w ?tp (combatants (gameApi w) m) ([], debugLastTarget b)"
  assume a: "squadState b = Attacking
        \<and> (centerOfMass m = None \<or> maxDistanceToCenterOfMass m = None
           \<or> (\<exists>c'. centerOfMass m = Some c' \<and> \<not> tileExists w c')
           \<or> (\<exists>d'. maxDistanceToCenterOfMass m = Some d'
                 \<and> d' \<le> sqrt (real (length (groundUnits (gameApi w) m))) * GATHER_RATIO
                        + MAX_GATHER_RADIUS))"
  then have att: "squadState b = Attacking" by blast
  have sb: "spreadBeyond w m
      (sqrt (real (length (groundUnits (gameApi w) m))) * GATHER_RATIO + MAX_GATHER_RADIUS) = None"
    using a spreadBeyond_None by blast
  have stays: "map_option squadState (behaviourOf (CombatSquad_onAiUpdate w m b)) = Some Attacking
      \<and> map_option length (pushedOf (CombatSquad_onAiUpdate w m b))
          = Some (length (combatants (gameApi w) m))"
    if ok: "?run = Inr (pushed, dbg)" for pushed dbg
  proof -
    obtain act b' where "CombatSquad_onAiUpdate w m b = Inr (act, b', pushed)"
      "squadState b' = Attacking"
      using onAiUpdate_attacking_stays [OF due att sb ok] by blast
    moreover have "length pushed = length (combatants (gameApi w) m)"
      using attackOrders_length [OF ok] by simp
    ultimately show ?thesis by (simp add: behaviourOf_def pushedOf_def)
  qed
  have 1: "map_option squadState (behaviourOf (CombatSquad_onAiUpdate w m b)) \<noteq> Some Gathering"
  proof (cases ?run)
    case (Inl e)
    then have "CombatSquad_onAiUpdate w m b = Inl e"
      using onAiUpdate_attacking_throws [OF due att sb] by blast
    then show ?thesis by (simp add: behaviourOf_def)
  next
    case (Inr res)
    then have "map_option squadState (behaviourOf (CombatSquad_onAiUpdate w m b)) = Some Attacking"
      using stays [of "fst res" "snd res"] by simp
    then show ?thesis by (metis SquadState.distinct(1) option.inject)
  qed
  have 2: "(\<forall>u \<in> set (combatants (gameApi w) m). tile u \<noteq> None) \<longrightarrow>
              map_option squadState (behaviourOf (CombatSquad_onAiUpdate w m b)) = Some Attacking
            \<and> map_option length (pushedOf (CombatSquad_onAiUpdate w m b))
                = Some (length (combatants (gameApi w) m))"
  proof
    assume "\<forall>u \<in> set (combatants (gameApi w) m). tile u \<noteq> None"
    then obtain res where "?run = Inr res"
      using attackOrders_ok by blast
    then show "map_option squadState (behaviourOf (CombatSquad_onAiUpdate w m b)) = Some Attacking
            \<and> map_option length (pushedOf (CombatSquad_onAiUpdate w m b))
                = Some (length (combatants (gameApi w) m))"
      using stays [of "fst res" "snd res"] by simp
  qed
  show "map_option squadState (behaviourOf (CombatSquad_onAiUpdate w m b)) \<noteq> Some Gathering
        \<and> ((\<forall>u \<in> set (combatants (gameApi w) m). tile u \<noteq> None) \<longrightarrow>
              map_option squadState (behaviourOf (CombatSquad_onAiUpdate w m b)) = Some Attacking
            \<and> map_option length (pushedOf (CombatSquad_onAiUpdate w m b))
                = Some (length (combatants (gameApi w) m)))"
    using 1 2 by blast
qed

text \<open>
  C2, as amended. At a throttled evaluation, with \<open>n\<close> the number of eligible ground
  combat members. In Gathering: when cohesion is defined, the center tile exists and
  the spread is above \<open>sqrt n * GATHER_RATIO + MIN_GATHER_RADIUS\<close>, the state stays
  Gathering and every combatant member is ordered to move to the center; in every other
  case (spread at most the threshold, or cohesion undefined, or no tile at the center)
  the state becomes Attacking and no order is pushed. In Attacking the transition is
  computed only when cohesion is defined and the center tile exists: if the spread is
  then above \<open>sqrt n * GATHER_RATIO + MAX_GATHER_RADIUS\<close>, the state reverts to
  Gathering, no order is pushed and the update returns noop; in every other case the
  state never becomes Gathering, and when every combatant has a tile (the attack loop
  completes) it stays Attacking with one order pushed per combatant.
\<close>

theorem gather_attack_transitions:
  "commandsDue w m b \<and> n = length (groundUnits (gameApi w) m) \<and> r = CombatSquad_onAiUpdate w m b \<longrightarrow>
     (squadState b = Gathering \<and> centerOfMass m = Some c \<and> maxDistanceToCenterOfMass m = Some d
        \<and> tileExists w c \<and> d > sqrt (real n) * GATHER_RATIO + MIN_GATHER_RADIUS \<longrightarrow>
          map_option squadState (behaviourOf r) = Some Gathering
        \<and> pushedOf r = Some (map (\<lambda>unit. MoveMicro (uid unit) c) (combatants (gameApi w) m)))
   \<and> (squadState b = Gathering
        \<and> (centerOfMass m = None \<or> maxDistanceToCenterOfMass m = None
           \<or> (\<exists>c'. centerOfMass m = Some c' \<and> \<not> tileExists w c')
           \<or> (\<exists>d'. maxDistanceToCenterOfMass m = Some d'
                 \<and> d' \<le> sqrt (real n) * GATHER_RATIO + MIN_GATHER_RADIUS)) \<longrightarrow>
          map_option squadState (behaviourOf r) = Some Attacking \<and> pushedOf r = Some [])
   \<and> (squadState b = Attacking \<and> centerOfMass m = Some c \<and> maxDistanceToCenterOfMass m = Some d
        \<and> tileExists w c \<and> d > sqrt (real n) * GATHER_RATIO + MAX_GATHER_RADIUS \<longrightarrow>
          map_option squadState (behaviourOf r) = Some Gathering \<and> pushedOf r = Some []
        \<and> actionOf r = Some Noop)
   \<and> (squadState b = Attacking
        \<and> (centerOfMass m = None \<or> maxDistanceToCenterOfMass m = None
           \<or> (\<exists>c'. centerOfMass m = Some c' \<and> \<not> tileExists w c')
           \<or> (\<exists>d'. maxDistanceToCenterOfMass m = Some d'
                 \<and> d' \<le> sqrt (real n) * GATHER_RATIO + MAX_GATHER_RADIUS)) \<longrightarrow>
          map_option squadState (behaviourOf r) \<noteq> Some Gathering
        \<and> ((\<forall>u \<in> set (combatants (gameApi w) m). tile u \<noteq> None) \<longrightarrow>
              map_option squadState (behaviourOf r) = Some Attacking
            \<and> map_option length (pushedOf r) = Some (length (combatants (gameApi w) m))))"
proof (intro impI)
  assume h: "commandsDue w m b \<and> n = length (groundUnits (gameApi w) m) \<and> r = CombatSquad_onAiUpdate w m b"
  then have due: "commandsDue w m b" and n: "n = length (groundUnits (gameApi w) m)"
    and r: "r = CombatSquad_onAiUpdate w m b"
    by blast+
  show "(squadState b = Gathering \<and> centerOfMass m = Some c \<and> maxDistanceToCenterOfMass m = Some d
        \<and> tileExists w c \<and> d > sqrt (real n) * GATHER_RATIO + MIN_GATHER_RADIUS \<longrightarrow>
          map_option squadState (behaviourOf r) = Some Gathering
        \<and> pushedOf r = Some (map (\<lambda>unit. MoveMicro (uid unit) c) (combatants (gameApi w) m)))
   \<and> (squadState b = Gathering
        \<and> (centerOfMass m = None \<or> maxDistanceToCenterOfMass m = None
           \<or> (\<exists>c'. centerOfMass m = Some c' \<and> \<not> tileExists w c')
           \<or> (\<exists>d'. maxDistanceToCenterOfMass m = Some d'
                 \<and> d' \<le> sqrt (real n) * GATHER_RATIO + MIN_GATHER_RADIUS)) \<longrightarrow>
          map_option squadState (behaviourOf r) = Some Attacking \<and> pushedOf r = Some [])
   \<and> (squadState b = Attacking \<and> centerOfMass m = Some c \<and> maxDistanceToCenterOfMass m = Some d
        \<and> tileExists w c \<and> d > sqrt (real n) * GATHER_RATIO + MAX_GATHER_RADIUS \<longrightarrow>
          map_option squadState (behaviourOf r) = Some Gathering \<and> pushedOf r = Some []
        \<and> actionOf r = Some Noop)
   \<and> (squadState b = Attacking
        \<and> (centerOfMass m = None \<or> maxDistanceToCenterOfMass m = None
           \<or> (\<exists>c'. centerOfMass m = Some c' \<and> \<not> tileExists w c')
           \<or> (\<exists>d'. maxDistanceToCenterOfMass m = Some d'
                 \<and> d' \<le> sqrt (real n) * GATHER_RATIO + MAX_GATHER_RADIUS)) \<longrightarrow>
          map_option squadState (behaviourOf r) \<noteq> Some Gathering
        \<and> ((\<forall>u \<in> set (combatants (gameApi w) m). tile u \<noteq> None) \<longrightarrow>
              map_option squadState (behaviourOf r) = Some Attacking
            \<and> map_option length (pushedOf r) = Some (length (combatants (gameApi w) m))))"
    unfolding n r
    by (intro conjI gathering_far [OF due] gathering_otherwise [OF due] attacking_far [OF due]
        attacking_otherwise [OF due])
qed

lemma line_units:
  "combatants lineWorld (spreadSquad d) = [groundUnitAt 1 0 0, groundUnitAt 2 2 0, groundUnitAt 3 4 0]"
  "length (groundUnits lineWorld (spreadSquad d)) = 3"
  "combatants lineWorld lineSquad = [groundUnitAt 1 0 0, groundUnitAt 2 2 0, groundUnitAt 3 4 0]"
  "length (groundUnits lineWorld lineSquad) = 3"
  by (simp_all add: combatants_def groundUnits_def getUnitsMatching_def spreadSquad_def
      lineSquad_def addUnit_def newSquad_def lineWorld_def groundUnitAt_def)

lemma sqrt_three: "sqrt 3 \<le> 2"
  by (rule real_le_lsqrt) simp_all

lemma line_due:
  "commandsDue (combatWorld lineWorld) (spreadSquad d) (newCombatSquad (0, 0) (9, 9))"
  "commandsDue (combatWorld lineWorld) (spreadSquad d) attackingSquad"
  "commandsDue (combatWorld lineWorld) lineSquad (newCombatSquad (0, 0) (9, 9))"
  by (simp_all add: commandsDue_def dueSince_def newCombatSquad_def attackingSquad_def
      spreadSquad_def lineSquad_def addUnit_def newSquad_def)

lemma stuck_cohesion:
  "centerOfMass stuckSquad = None" "maxDistanceToCenterOfMass stuckSquad = None"
  "unitIds stuckSquad = [1]"
  by (simp_all add: stuckSquad_def Squad_onAiUpdate_def updateLiveness_def movableUnitTiles_def
      calculateCenterOfMass_def stuckWorld_def addUnit_def newSquad_def groundUnitAt_def Let_def)

theorem gather_attack_transitions_witness:
  "map_option squadState (behaviourOf (CombatSquad_onAiUpdate (combatWorld lineWorld)
       (spreadSquad 100) (newCombatSquad (0, 0) (9, 9)))) = Some Gathering
   \<and> pushedOf (CombatSquad_onAiUpdate (combatWorld lineWorld)
       (spreadSquad 100) (newCombatSquad (0, 0) (9, 9)))
     = Some [MoveMicro 1 (2, 0), MoveMicro 2 (2, 0), MoveMicro 3 (2, 0)]
   \<and> map_option squadState (behaviourOf (CombatSquad_onAiUpdate (combatWorld lineWorld)
       (spreadSquad 2) (newCombatSquad (0, 0) (9, 9)))) = Some Attacking
   \<and> map_option squadState (behaviourOf (CombatSquad_onAiUpdate (combatWorld lineWorld)
       (spreadSquad 100) attackingSquad)) = Some Gathering
   \<and> pushedOf (CombatSquad_onAiUpdate (combatWorld lineWorld) (spreadSquad 100) attackingSquad)
     = Some []
   \<and> map_option squadState (behaviourOf (CombatSquad_onAiUpdate (combatWorld lineWorld)
       (spreadSquad 2) attackingSquad)) = Some Attacking
   \<and> map_option length (pushedOf (CombatSquad_onAiUpdate (combatWorld lineWorld)
       (spreadSquad 2) attackingSquad)) = Some 3"
proof -
  let ?w = "combatWorld lineWorld"
  let ?b = "newCombatSquad (0, 0) (9, 9)"
  have m: "centerOfMass (spreadSquad d) = Some (2, 0)"
    "maxDistanceToCenterOfMass (spreadSquad d) = Some d" for d
    by (simp_all add: spreadSquad_def)
  have w: "tileExists ?w (2, 0)" "gameApi ?w = lineWorld"
    by (simp_all add: combatWorld_def)
  have b: "squadState ?b = Gathering" "squadState attackingSquad = Attacking"
    by (simp_all add: newCombatSquad_def attackingSquad_def)
  have far: "(100::real) > sqrt (real (3::nat)) * GATHER_RATIO + MIN_GATHER_RADIUS"
    "(100::real) > sqrt (real (3::nat)) * GATHER_RATIO + MAX_GATHER_RADIUS"
    using sqrt_three by (simp_all add: GATHER_RATIO_def MIN_GATHER_RADIUS_def MAX_GATHER_RADIUS_def)
  have near: "(2::real) \<le> sqrt (real (3::nat)) * GATHER_RATIO + MIN_GATHER_RADIUS"
    "(2::real) \<le> sqrt (real (3::nat)) * GATHER_RATIO + MAX_GATHER_RADIUS"
    by (simp_all add: GATHER_RATIO_def MIN_GATHER_RADIUS_def MAX_GATHER_RADIUS_def add_increasing)
  have tl: "\<forall>u \<in> set (combatants (gameApi ?w) (spreadSquad 2)). tile u \<noteq> None"
    by (simp add: w line_units groundUnitAt_def)
  note t1 = gather_attack_transitions [of ?w "spreadSquad 100" ?b 3 _ "(2, 0)" 100]
  note t2 = gather_attack_transitions [of ?w "spreadSquad 2" ?b 3 _ "(2, 0)" 2]
  note t3 = gather_attack_transitions [of ?w "spreadSquad 100" attackingSquad 3 _ "(2, 0)" 100]
  note t4 = gather_attack_transitions [of ?w "spreadSquad 2" attackingSquad 3 _ "(2, 0)" 2]
  have cs: "combatants (gameApi ?w) (spreadSquad d)
      = [groundUnitAt 1 0 0, groundUnitAt 2 2 0, groundUnitAt 3 4 0]" for d
    by (simp add: w line_units(1))
  have 1: "map_option squadState (behaviourOf (CombatSquad_onAiUpdate ?w (spreadSquad 100) ?b))
      = Some Gathering
    \<and> pushedOf (CombatSquad_onAiUpdate ?w (spreadSquad 100) ?b)
      = Some (map (\<lambda>unit. MoveMicro (uid unit) (2, 0)) (combatants (gameApi ?w) (spreadSquad 100)))"
    using t1 line_due(1) line_units(2) m w b far by simp
  have 2: "map_option squadState (behaviourOf (CombatSquad_onAiUpdate ?w (spreadSquad 2) ?b))
      = Some Attacking"
    using t2 line_due(1) line_units(2) m w b near by simp
  have 3: "map_option squadState (behaviourOf (CombatSquad_onAiUpdate ?w (spreadSquad 100) attackingSquad))
      = Some Gathering
    \<and> pushedOf (CombatSquad_onAiUpdate ?w (spreadSquad 100) attackingSquad) = Some []"
    using t3 line_due(2) line_units(2) m w b far by simp
  have 4: "map_option squadState (behaviourOf (CombatSquad_onAiUpdate ?w (spreadSquad 2) attackingSquad))
      = Some Attacking
    \<and> map_option length (pushedOf (CombatSquad_onAiUpdate ?w (spreadSquad 2) attackingSquad))
      = Some (length (combatants (gameApi ?w) (spreadSquad 2)))"
    using t4 line_due(2) line_units(2) m w b near tl by simp
  have p1: "pushedOf (CombatSquad_onAiUpdate ?w (spreadSquad 100) ?b)
      = Some [MoveMicro 1 (2, 0), MoveMicro 2 (2, 0), MoveMicro 3 (2, 0)]"
    using 1 unfolding cs by (simp add: groundUnitAt_def)
  have p4: "map_option length (pushedOf (CombatSquad_onAiUpdate ?w (spreadSquad 2) attackingSquad))
      = Some 3"
  proof -
    have "length [groundUnitAt 1 0 0, groundUnitAt 2 2 0, groundUnitAt 3 4 0] = 3" by simp
    then show ?thesis using 4 unfolding cs by (simp only:)
  qed
  show ?thesis
    using 1 p1 2 3 4 p4 by blast
qed

text \<open>
  The claim as the specification words it fails: a squad whose only member cannot move
  has undefined cohesion after its update, and the gathering behaviour of that squad
  does make a transition, to Attacking.
\<close>

theorem gather_attack_transitions_counterexample:
  "centerOfMass stuckSquad = None \<and> maxDistanceToCenterOfMass stuckSquad = None
   \<and> commandsDue (combatWorld stuckWorld) stuckSquad (newCombatSquad (0, 0) (9, 9))
   \<and> squadState (newCombatSquad (0, 0) (9, 9)) = Gathering
   \<and> map_option squadState (behaviourOf (CombatSquad_onAiUpdate (combatWorld stuckWorld)
        stuckSquad (newCombatSquad (0, 0) (9, 9)))) = Some Attacking"
proof -
  have g: "squadState (newCombatSquad (0, 0) (9, 9)) = Gathering"
    by (simp add: newCombatSquad_def)
  have due: "commandsDue (combatWorld stuckWorld) stuckSquad (newCombatSquad (0, 0) (9, 9))"
    by (simp add: commandsDue_def stuck_cohesion dueSince_def newCombatSquad_def)
  have sb: "spreadBeyond (combatWorld stuckWorld) stuckSquad req = None" for req
    by (simp add: spreadBeyond_def stuck_cohesion)
  obtain act b' where
    "CombatSquad_onAiUpdate (combatWorld stuckWorld) stuckSquad (newCombatSquad (0, 0) (9, 9))
       = Inr (act, b', [])" "squadState b' = Attacking"
    using onAiUpdate_gathering_close [OF due g sb] by blast
  then show ?thesis
    using stuck_cohesion g due by (simp add: behaviourOf_def)
qed

lemma evaluated_without_return:
  assumes nr: "\<not> revertsToGathering w m b"
    and tiles: "runsAttackLoop w m b \<longrightarrow> (\<forall>u \<in> set (combatants (gameApi w) m). tile u \<noteq> None)"
  shows "\<exists>b1 p.
     (if length (unitIds m) > 0
          \<and> dueSince (lastCommand b) (getCurrentTick (gameApi w)) TARGET_UPDATE_INTERVAL_TICKS
      then evaluateState w m (b\<lparr>lastCommand := Some (getCurrentTick (gameApi w))\<rparr>)
      else Inr (False, b, [])) = Inr (False, b1, p)
     \<and> lastGrab b1 = lastGrab b \<and> rallyArea b1 = rallyArea b"
proof (cases "commandsDue w m b")
  case False
  then show ?thesis by (auto simp add: commandsDue_def)
next
  case due: True
  let ?b = "b\<lparr>lastCommand := Some (getCurrentTick (gameApi w))\<rparr>"
  have "\<exists>b1 p. evaluateState w m ?b = Inr (False, b1, p)
      \<and> lastGrab b1 = lastGrab b \<and> rallyArea b1 = rallyArea b"
  proof (cases "squadState b")
    case Gathering
    then show ?thesis
      by (simp add: evaluateState_def Let_def split: option.splits)
  next
    case Attacking
    let ?req = "sqrt (real (length (groundUnits (gameApi w) m))) * GATHER_RATIO + MAX_GATHER_RADIUS"
    have "spreadBeyond w m ?req = None"
    proof (rule ccontr)
      assume "spreadBeyond w m ?req \<noteq> None"
      then have "\<exists>c d. centerOfMass m = Some c \<and> maxDistanceToCenterOfMass m = Some d
          \<and> tileExists w c \<and> d > ?req"
        using spreadBeyond_Some_iff [OF gather_radius_nonneg(2)] by blast
      then have "revertsToGathering w m b"
        using due Attacking unfolding revertsToGathering_def by blast
      with nr show False by blast
    qed
    moreover have "runsAttackLoop w m b"
      using nr due Attacking by (simp add: runsAttackLoop_def)
    then obtain res where
      "attackOrders w (case targetArea b of Some p \<Rightarrow> p | None \<Rightarrow> startLocation w)
         (combatants (gameApi w) m) ([], debugLastTarget b) = Inr res"
      using tiles attackOrders_ok by blast
    ultimately show ?thesis
      using Attacking by (cases res) (simp add: evaluateState_def Let_def)
  qed
  moreover have "length (unitIds m) > 0
      \<and> dueSince (lastCommand b) (getCurrentTick (gameApi w)) TARGET_UPDATE_INTERVAL_TICKS"
    using due by (simp add: commandsDue_def)
  ultimately show ?thesis by simp
qed

lemma revert_spread:
  assumes "revertsToGathering w m b"
  shows "\<exists>c. spreadBeyond w m
     (sqrt (real (length (groundUnits (gameApi w) m))) * GATHER_RATIO + MAX_GATHER_RADIUS) = Some c"
  using assms spreadBeyond_Some gather_radius_nonneg(2)
  unfolding revertsToGathering_def by blast

text \<open>
  C9, as amended. At an update for which a grab is due (no previous grab, or more than
  GRAB_INTERVAL ticks since the last one): unless the evaluation of the same update
  reverts the squad from Attacking to Gathering, and provided the attack loop does not
  throw on a combatant without a tile, the behaviour returns the request to grab
  combatants within GRAB_RADIUS of the squad's center, or of its rally area when the
  center is undefined, and records the tick. When the evaluation reverts to Gathering,
  the update returns noop instead and the last grab tick is unchanged.
\<close>

theorem reinforcement_request:
  "tick = getCurrentTick (gameApi w) \<and> r = CombatSquad_onAiUpdate w m b
   \<and> dueSince (lastGrab b) tick GRAB_INTERVAL_TICKS \<longrightarrow>
     (\<not> revertsToGathering w m b
        \<and> (runsAttackLoop w m b \<longrightarrow> (\<forall>u \<in> set (combatants (gameApi w) m). tile u \<noteq> None)) \<longrightarrow>
          actionOf r
            = Some (GrabCombatants (case centerOfMass m of Some c \<Rightarrow> c | None \<Rightarrow> rallyArea b)
                      GRAB_RADIUS)
        \<and> map_option lastGrab (behaviourOf r) = Some (Some tick))
   \<and> (revertsToGathering w m b \<longrightarrow>
          actionOf r = Some Noop \<and> map_option lastGrab (behaviourOf r) = Some (lastGrab b))"
proof (intro impI)
  assume h: "tick = getCurrentTick (gameApi w) \<and> r = CombatSquad_onAiUpdate w m b
   \<and> dueSince (lastGrab b) tick GRAB_INTERVAL_TICKS"
  then have tick: "tick = getCurrentTick (gameApi w)" and r: "r = CombatSquad_onAiUpdate w m b"
    and grab: "dueSince (lastGrab b) (getCurrentTick (gameApi w)) GRAB_INTERVAL_TICKS"
    by blast+
  show "(\<not> revertsToGathering w m b
        \<and> (runsAttackLoop w m b \<longrightarrow> (\<forall>u \<in> set (combatants (gameApi w) m). tile u \<noteq> None)) \<longrightarrow>
          actionOf r
            = Some (GrabCombatants (case centerOfMass m of Some c \<Rightarrow> c | None \<Rightarrow> rallyArea b)
                      GRAB_RADIUS)
        \<and> map_option lastGrab (behaviourOf r) = Some (Some tick))
   \<and> (revertsToGathering w m b \<longrightarrow>
          actionOf r = Some Noop \<and> map_option lastGrab (behaviourOf r) = Some (lastGrab b))"
  proof (intro conjI impI)
    assume a: "\<not> revertsToGathering w m b
        \<and> (runsAttackLoop w m b \<longrightarrow> (\<forall>u \<in> set (combatants (gameApi w) m). tile u \<noteq> None))"
    then obtain b1 p where e:
      "(if length (unitIds m) > 0
          \<and> dueSince (lastCommand b) (getCurrentTick (gameApi w)) TARGET_UPDATE_INTERVAL_TICKS
        then evaluateState w m (b\<lparr>lastCommand := Some (getCurrentTick (gameApi w))\<rparr>)
        else Inr (False, b, [])) = Inr (False, b1, p)"
      and k: "lastGrab b1 = lastGrab b" "rallyArea b1 = rallyArea b"
      using evaluated_without_return [of w m b] by blast
    have "r = Inr (GrabCombatants (case centerOfMass m of Some c \<Rightarrow> c | None \<Rightarrow> rallyArea b)
                GRAB_RADIUS, b1\<lparr>lastGrab := Some tick\<rparr>, p)"
      unfolding r CombatSquad_onAiUpdate_def Let_def e using grab k tick
      by (simp split: option.splits)
    then show "actionOf r
            = Some (GrabCombatants (case centerOfMass m of Some c \<Rightarrow> c | None \<Rightarrow> rallyArea b)
                      GRAB_RADIUS)"
      "map_option lastGrab (behaviourOf r) = Some (Some tick)"
      by (simp_all add: actionOf_def behaviourOf_def)
  next
    assume a: "revertsToGathering w m b"
    then obtain c where "spreadBeyond w m
       (sqrt (real (length (groundUnits (gameApi w) m))) * GATHER_RATIO + MAX_GATHER_RADIUS) = Some c"
      using revert_spread by blast
    then have "r = Inr (Noop, b\<lparr>lastCommand := Some (getCurrentTick (gameApi w)),
        squadState := Gathering\<rparr>, [])"
      unfolding r using a onAiUpdate_reverts [of w m b c] by (simp add: revertsToGathering_def)
    then show "actionOf r = Some Noop" "map_option lastGrab (behaviourOf r) = Some (lastGrab b)"
      by (simp_all add: actionOf_def behaviourOf_def)
  qed
qed

lemma line_thresholds:
  "(100::real) > sqrt (real (3::nat)) * GATHER_RATIO + MAX_GATHER_RADIUS"
  "\<not> (2::real) > sqrt (real (3::nat)) * GATHER_RATIO + MAX_GATHER_RADIUS"
proof -
  show "(100::real) > sqrt (real (3::nat)) * GATHER_RATIO + MAX_GATHER_RADIUS"
    using sqrt_three by (simp add: GATHER_RATIO_def MAX_GATHER_RADIUS_def)
  have "0 \<le> sqrt (real (3::nat)) * GATHER_RATIO"
    by (simp add: GATHER_RATIO_def)
  then show "\<not> (2::real) > sqrt (real (3::nat)) * GATHER_RATIO + MAX_GATHER_RADIUS"
    by (simp add: MAX_GATHER_RADIUS_def)
qed

lemma line_reverts:
  "revertsToGathering (combatWorld lineWorld) (spreadSquad 100) attackingSquad"
  "\<not> revertsToGathering (combatWorld lineWorld) lineSquad (newCombatSquad (0, 0) (9, 9))"
  "\<not> runsAttackLoop (combatWorld lineWorld) lineSquad (newCombatSquad (0, 0) (9, 9))"
  "\<not> revertsToGathering (combatWorld lineWorld) (spreadSquad 2) attackingSquad"
proof -
  have w: "gameApi (combatWorld lineWorld) = lineWorld" "tileExists (combatWorld lineWorld) (2, 0)"
    by (simp_all add: combatWorld_def)
  have m: "centerOfMass (spreadSquad d) = Some (2, 0)"
    "maxDistanceToCenterOfMass (spreadSquad d) = Some d" for d
    by (simp_all add: spreadSquad_def)
  have b: "squadState attackingSquad = Attacking"
    "squadState (newCombatSquad (0, 0) (9, 9)) = Gathering"
    by (simp_all add: attackingSquad_def newCombatSquad_def)
  show "revertsToGathering (combatWorld lineWorld) (spreadSquad 100) attackingSquad"
    unfolding revertsToGathering_def w line_units m
    using line_due(2) b(1) w(2) line_thresholds(1) by simp
  show "\<not> revertsToGathering (combatWorld lineWorld) lineSquad (newCombatSquad (0, 0) (9, 9))"
    by (simp add: revertsToGathering_def b)
  show "\<not> runsAttackLoop (combatWorld lineWorld) lineSquad (newCombatSquad (0, 0) (9, 9))"
    by (simp add: runsAttackLoop_def b)
  show "\<not> revertsToGathering (combatWorld lineWorld) (spreadSquad 2) attackingSquad"
    unfolding revertsToGathering_def w line_units m
    using line_thresholds(2) by simp
qed

theorem reinforcement_request_witness:
  "actionOf (CombatSquad_onAiUpdate (combatWorld lineWorld) lineSquad (newCombatSquad (0, 0) (9, 9)))
     = Some (GrabCombatants (0, 0) 20)
   \<and> actionOf (CombatSquad_onAiUpdate (combatWorld lineWorld) (spreadSquad 2) attackingSquad)
     = Some (GrabCombatants (2, 0) 20)
   \<and> map_option lastGrab (behaviourOf
        (CombatSquad_onAiUpdate (combatWorld lineWorld) (spreadSquad 2) attackingSquad))
     = Some (Some 6)
   \<and> actionOf (CombatSquad_onAiUpdate (combatWorld lineWorld) (spreadSquad 100) attackingSquad)
     = Some Noop"
proof -
  let ?w = "combatWorld lineWorld"
  let ?b = "newCombatSquad (0, 0) (9, 9)"
  have t: "getCurrentTick (gameApi ?w) = 6"
    by (simp add: combatWorld_def lineWorld_def)
  have g: "dueSince (lastGrab ?b) 6 GRAB_INTERVAL_TICKS" "dueSince (lastGrab attackingSquad) 6 GRAB_INTERVAL_TICKS"
    by (simp_all add: dueSince_def newCombatSquad_def attackingSquad_def)
  have tl: "\<forall>u \<in> set (combatants (gameApi ?w) (spreadSquad 2)). tile u \<noteq> None"
    by (simp add: combatWorld_def line_units groundUnitAt_def)
  have c: "centerOfMass lineSquad = None" "rallyArea ?b = (0, 0)"
    "centerOfMass (spreadSquad 2) = Some (2, 0)"
    by (simp_all add: lineSquad_def addUnit_def newSquad_def newCombatSquad_def spreadSquad_def)
  note r1 = reinforcement_request [of 6 ?w _ lineSquad ?b]
  note r2 = reinforcement_request [of 6 ?w _ "spreadSquad 2" attackingSquad]
  note r3 = reinforcement_request [of 6 ?w _ "spreadSquad 100" attackingSquad]
  show ?thesis
    using r1 r2 r3 t g tl c line_reverts
    by (simp add: GRAB_RADIUS_def attackingSquad_def newCombatSquad_def)
qed

text \<open>
  The claim as the specification words it fails: no grab was ever made, the evaluation
  reverts the attacking squad to Gathering, and the update returns noop, not the request.
\<close>

theorem reinforcement_request_counterexample:
  "dueSince (lastGrab attackingSquad) (getCurrentTick (gameApi (combatWorld lineWorld)))
       GRAB_INTERVAL_TICKS
   \<and> lastGrab attackingSquad = None
   \<and> CombatSquad_onAiUpdate (combatWorld lineWorld) (spreadSquad 100) attackingSquad
     = Inr (Noop, attackingSquad\<lparr>lastCommand := Some 6, squadState := Gathering\<rparr>, [])"
proof -
  obtain c where "spreadBeyond (combatWorld lineWorld) (spreadSquad 100)
       (sqrt (real (length (groundUnits (gameApi (combatWorld lineWorld)) (spreadSquad 100))))
          * GATHER_RATIO + MAX_GATHER_RADIUS) = Some c"
    using revert_spread [OF line_reverts(1)] by blast
  then have "CombatSquad_onAiUpdate (combatWorld lineWorld) (spreadSquad 100) attackingSquad
     = Inr (Noop, attackingSquad\<lparr>lastCommand := Some (getCurrentTick (gameApi (combatWorld lineWorld))),
         squadState := Gathering\<rparr>, [])"
    using onAiUpdate_reverts [OF line_due(2), of 100 c] by (simp add: attackingSquad_def)
  then show ?thesis
    by (simp add: dueSince_def attackingSquad_def newCombatSquad_def combatWorld_def lineWorld_def)
qed

section \<open>Loading onto transports\<close>

definition LOAD_TIME_LIMIT :: nat where
  "LOAD_TIME_LIMIT = 300"

datatype ScriptStepResult = Repeat | Step | DisbandScript | GoToLine nat

datatype Order = DeploySelected "nat list" | EnterTransport nat nat

text \<open>
  A JavaScript \<open>Map\<close> keeps its entries in insertion order: an association list, where
  \<open>set\<close> on a present key replaces the value in place and on a new key appends
  (\<^const>\<open>AList.update\<close>), and \<open>delete\<close> removes the entry (\<^const>\<open>AList.delete\<close>).
\<close>

definition newMap :: "('k \<times> 'v) list \<Rightarrow> ('k \<times> 'v) list" where
  "newMap entries = fold (\<lambda>(k, v) m. AList.update k v m) entries []"

record LoadOntoTransportHandler =
  transporters :: "nat list option"
  transporteesToTransport :: "(nat \<times> nat) list"
  abortAt :: "nat option"

definition newLoadOntoTransportHandler :: LoadOntoTransportHandler where
  "newLoadOntoTransportHandler = \<lparr>transporters = None, transporteesToTransport = [], abortAt = None\<rparr>"

text \<open>
  The \<open>while\<close> loop of \<open>onStart\<close>: the last unit is popped; the last transport with room
  for it takes it, and leaves the map when it is full; a unit that fits nowhere is dropped.
\<close>

function loadLoop ::
    "UnitData list \<Rightarrow> (nat \<times> int) list \<Rightarrow> (nat \<times> nat) list \<Rightarrow> (nat \<times> nat) list" where
  "loadLoop transportedUnits remainingSizes assigned =
     (if length transportedUnits > 0 \<and> length remainingSizes > 0 then
        (let unit = last transportedUnits;
             popped = butlast transportedUnits;
             fitting = filter (\<lambda>(transportId, slots). slots \<ge> rsize (rules unit)) remainingSizes
         in if fitting = [] then loadLoop popped remainingSizes assigned
            else
              (let transportId = fst (last fitting);
                   slots = snd (last fitting);
                   assigned1 = AList.update (uid unit) transportId assigned;
                   remaining1 = AList.update transportId (slots - rsize (rules unit)) remainingSizes;
                   remaining2 = (if slots - rsize (rules unit) = 0
                                 then AList.delete transportId remaining1 else remaining1)
               in loadLoop popped remaining2 assigned1))
      else assigned)"
  by pat_completeness auto
termination
  by (relation "measure (\<lambda>(transportedUnits, remainingSizes, assigned). length transportedUnits)")
    auto

declare loadLoop.simps [simp del]

definition onStart ::
    "UnitData list \<Rightarrow> nat \<Rightarrow> LoadOntoTransportHandler \<Rightarrow> LoadOntoTransportHandler \<times> Order list" where
  "onStart allUnits tick h =
     (let transportUnits = filter (\<lambda>u. passengers (rules u) > 0) allUnits;
          ids = map uid transportUnits;
          remainingSizes = newMap (map (\<lambda>t. (uid t, passengers (rules t))) transportUnits);
          transportedUnits = filter (\<lambda>u. rsize (rules u) > 0 \<and> uid u \<notin> set ids) allUnits
      in (h\<lparr>transporters := Some ids,
            transporteesToTransport :=
              loadLoop transportedUnits remainingSizes (transporteesToTransport h),
            abortAt := Some (tick + LOAD_TIME_LIMIT)\<rparr>,
          [DeploySelected ids]))"

text \<open>\<open>this.abortAt && tick > this.abortAt\<close>: a deadline of 0 is falsy.\<close>

definition pastDeadline :: "nat option \<Rightarrow> nat \<Rightarrow> bool" where
  "pastDeadline deadline tick = (case deadline of None \<Rightarrow> False | Some a \<Rightarrow> a \<noteq> 0 \<and> tick > a)"

definition onStep :: "LoadOntoTransportHandler \<Rightarrow> nat \<Rightarrow> ScriptStepResult \<times> Order list" where
  "onStep h tick =
     (if transporters h = None \<or> pastDeadline (abortAt h) tick then (Step, [])
      else (Repeat, map (\<lambda>(passenger, transport). EnterTransport passenger transport)
                      (transporteesToTransport h)))"

text \<open>The sizes of the units of \<open>allUnits\<close> that the map assigns to transport \<open>t\<close>, summed.\<close>

definition assignedLoad :: "UnitData list \<Rightarrow> (nat \<times> nat) list \<Rightarrow> nat \<Rightarrow> int" where
  "assignedLoad allUnits assigned t =
     sum_list (map (\<lambda>u. rsize (rules u))
       (filter (\<lambda>u. map_of assigned (uid u) = Some t) allUnits))"

definition slotsLeft :: "(nat \<times> int) list \<Rightarrow> nat \<Rightarrow> int" where
  "slotsLeft remainingSizes t = (case map_of remainingSizes t of Some r \<Rightarrow> r | None \<Rightarrow> 0)"

text \<open>
  The invariant of the loop, for a capacity \<open>cap\<close> per transport: the units still to be
  placed are distinct units of \<open>allUnits\<close> without an assignment, the map of remaining
  slots has distinct keys and no negative entry, and for every transport the sizes
  assigned so far plus the slots left stay within its capacity.
\<close>

definition loadInv ::
    "UnitData list \<Rightarrow> (nat \<Rightarrow> int) \<Rightarrow> UnitData list \<Rightarrow> (nat \<times> int) list \<Rightarrow> (nat \<times> nat) list
     \<Rightarrow> bool" where
  "loadInv allUnits cap stack remainingSizes assigned \<longleftrightarrow>
     distinct (map uid allUnits) \<and> set stack \<subseteq> set allUnits \<and> distinct (map uid stack)
     \<and> (\<forall>u \<in> set stack. map_of assigned (uid u) = None)
     \<and> distinct (map fst remainingSizes)
     \<and> (\<forall>t r. map_of remainingSizes t = Some r \<longrightarrow> 0 \<le> r)
     \<and> (\<forall>t. assignedLoad allUnits assigned t + slotsLeft remainingSizes t \<le> cap t)"

definition loadUnit :: "nat \<Rightarrow> int \<Rightarrow> int \<Rightarrow> UnitData" where
  "loadUnit i p s =
     \<lparr>uid = i, owner = ''me'', canMove = True, tile = None,
      rules = \<lparr>passengers = p, rsize = s, isSelectableCombatant = True, movementZone = Normal\<rparr>\<rparr>"

text \<open>Two transports with 2 and 3 slots, and passengers of sizes 2, 2 and 3.\<close>

definition convoy :: "UnitData list" where
  "convoy = [loadUnit 1 2 0, loadUnit 2 3 0, loadUnit 3 0 2, loadUnit 4 0 2, loadUnit 5 0 3]"

section \<open>Loading onto transports: theorems\<close>

lemma loadLoop_Nil: "loadLoop [] R A = A"
  by (subst loadLoop.simps) simp

lemma loadLoop_no_room: "loadLoop stack [] A = A"
  by (subst loadLoop.simps) simp

lemma loadLoop_snoc:
  "R \<noteq> [] \<Longrightarrow> loadLoop (xs @ [x]) R A =
     (let fitting = filter (\<lambda>(transportId, slots). slots \<ge> rsize (rules x)) R
      in if fitting = [] then loadLoop xs R A
         else loadLoop xs
                (if snd (last fitting) - rsize (rules x) = 0
                 then AList.delete (fst (last fitting))
                        (AList.update (fst (last fitting)) (snd (last fitting) - rsize (rules x)) R)
                 else AList.update (fst (last fitting)) (snd (last fitting) - rsize (rules x)) R)
                (AList.update (uid x) (fst (last fitting)) A))"
  by (subst loadLoop.simps) (simp add: Let_def)

lemma update_new_key: "k \<notin> fst ` set al \<Longrightarrow> AList.update k v al = al @ [(k, v)]"
  by (induction al) auto

lemma fold_update_distinct:
  "distinct (map fst (acc @ es)) \<Longrightarrow> fold (\<lambda>(k, v) m. AList.update k v m) es acc = acc @ es"
proof (induction es arbitrary: acc)
  case Nil
  then show ?case by simp
next
  case (Cons e es)
  obtain k v where e: "e = (k, v)" by (cases e)
  have new: "k \<notin> fst ` set acc" using Cons.prems e by auto
  have "distinct (map fst ((acc @ [(k, v)]) @ es))" using Cons.prems e by simp
  then have "fold (\<lambda>(k, v) m. AList.update k v m) es (acc @ [(k, v)]) = (acc @ [(k, v)]) @ es"
    by (rule Cons.IH)
  then show ?case using e new by (simp add: update_new_key)
qed

lemma newMap_distinct: "distinct (map fst es) \<Longrightarrow> newMap es = es"
  using fold_update_distinct [of "[]" es] by (simp add: newMap_def)

lemma assignedLoad_Cons:
  "assignedLoad (x # xs) A t
     = (if map_of A (uid x) = Some t then rsize (rules x) else 0) + assignedLoad xs A t"
  by (simp add: assignedLoad_def)

lemma assignedLoad_other:
  "uid unit \<notin> uid ` set xs \<Longrightarrow>
     assignedLoad xs (AList.update (uid unit) tid A) t = assignedLoad xs A t"
proof (induction xs)
  case Nil
  then show ?case by (simp add: assignedLoad_def)
next
  case (Cons x xs)
  then have "uid x \<noteq> uid unit" and "uid unit \<notin> uid ` set xs" by auto
  then show ?case
    using Cons.IH by (simp add: assignedLoad_Cons AList.update_conv')
qed

lemma assignedLoad_update:
  assumes "distinct (map uid xs)" and "unit \<in> set xs" and "map_of A (uid unit) = None"
  shows "assignedLoad xs (AList.update (uid unit) tid A) t
     = assignedLoad xs A t + (if t = tid then rsize (rules unit) else 0)"
  using assms
proof (induction xs)
  case Nil
  then show ?case by simp
next
  case (Cons x xs)
  show ?case
  proof (cases "x = unit")
    case True
    then have "uid unit \<notin> uid ` set xs" using Cons.prems(1) by auto
    then have rest: "assignedLoad xs (AList.update (uid unit) tid A) t = assignedLoad xs A t"
      by (rule assignedLoad_other)
    have "map_of (AList.update (uid unit) tid A) (uid unit) = Some tid"
      by (simp add: AList.update_conv')
    then show ?thesis
      unfolding True assignedLoad_Cons rest using Cons.prems(3) by auto
  next
    case False
    then have in_rest: "unit \<in> set xs" using Cons.prems(2) by simp
    then have ne: "uid x \<noteq> uid unit" using Cons.prems(1) by auto
    have rest: "assignedLoad xs (AList.update (uid unit) tid A) t
        = assignedLoad xs A t + (if t = tid then rsize (rules unit) else 0)"
      using Cons.IH Cons.prems(1,3) in_rest by simp
    have "map_of (AList.update (uid unit) tid A) (uid x) = map_of A (uid x)"
      using ne by (simp add: AList.update_conv')
    then show ?thesis
      unfolding assignedLoad_Cons rest by simp
  qed
qed

lemma slotsLeft_after:
  "slotsLeft (if r = 0 then AList.delete tid (AList.update tid r R) else AList.update tid r R) t
     = (if t = tid then r else slotsLeft R t)"
  by (simp add: slotsLeft_def AList.update_conv' AList.delete_conv')

lemma slotsLeft_nonneg: "\<forall>t r. map_of R t = Some r \<longrightarrow> 0 \<le> r \<Longrightarrow> 0 \<le> slotsLeft R t"
  by (simp add: slotsLeft_def split: option.splits)

lemma loadInv_skip:
  assumes "loadInv allUnits cap (xs @ [x]) R A"
  shows "loadInv allUnits cap xs R A"
  using assms by (simp add: loadInv_def)

lemma loadInv_assign:
  assumes inv: "loadInv allUnits cap (xs @ [x]) R A"
    and fit: "filter (\<lambda>(transportId, slots). slots \<ge> rsize (rules x)) R \<noteq> []"
    and tid: "tid = fst (last (filter (\<lambda>(transportId, slots). slots \<ge> rsize (rules x)) R))"
    and slots: "slots = snd (last (filter (\<lambda>(transportId, slots). slots \<ge> rsize (rules x)) R))"
  shows "loadInv allUnits cap xs
     (if slots - rsize (rules x) = 0
      then AList.delete tid (AList.update tid (slots - rsize (rules x)) R)
      else AList.update tid (slots - rsize (rules x)) R)
     (AList.update (uid x) tid A)"
proof -
  let ?f = "filter (\<lambda>(transportId, slots). slots \<ge> rsize (rules x)) R"
  have "last ?f \<in> set ?f" using fit by (rule last_in_set)
  then have mem: "(tid, slots) \<in> set R" and room: "rsize (rules x) \<le> slots"
    using tid slots by auto
  have dR: "distinct (map fst R)" using inv by (simp add: loadInv_def)
  have look: "map_of R tid = Some slots" using dR mem by (rule map_of_is_SomeI)
  have dU: "distinct (map uid allUnits)" and xin: "x \<in> set allUnits"
    and xfree: "map_of A (uid x) = None"
    and xnew0: "uid x \<notin> uid ` set xs"
    using inv by (simp_all add: loadInv_def)
  have xnew: "\<forall>u \<in> set xs. uid u \<noteq> uid x"
    using xnew0 by (metis image_eqI)
  have bound: "assignedLoad allUnits A t + slotsLeft R t \<le> cap t" for t
    using inv by (simp add: loadInv_def)
  have load: "assignedLoad allUnits (AList.update (uid x) tid A) t
      = assignedLoad allUnits A t + (if t = tid then rsize (rules x) else 0)" for t
    using dU xin xfree by (rule assignedLoad_update)
  have left: "slotsLeft R tid = slots" using look by (simp add: slotsLeft_def)
  let ?R = "if slots - rsize (rules x) = 0
      then AList.delete tid (AList.update tid (slots - rsize (rules x)) R)
      else AList.update tid (slots - rsize (rules x)) R"
  have 1: "distinct (map fst ?R)"
    using dR by (simp add: AList.distinct_update AList.distinct_delete)
  have 2: "\<forall>t r. map_of ?R t = Some r \<longrightarrow> 0 \<le> r"
    using inv room by (auto simp add: loadInv_def AList.update_conv' AList.delete_conv' split: if_splits)
  have 3: "\<forall>t. assignedLoad allUnits (AList.update (uid x) tid A) t + slotsLeft ?R t \<le> cap t"
  proof
    fix t
    show "assignedLoad allUnits (AList.update (uid x) tid A) t + slotsLeft ?R t \<le> cap t"
      using bound [of t] left unfolding load slotsLeft_after by (cases "t = tid") simp_all
  qed
  have 4: "\<forall>u \<in> set xs. map_of (AList.update (uid x) tid A) (uid u) = None"
  proof
    fix u
    assume u: "u \<in> set xs"
    then have "uid u \<noteq> uid x" using xnew by blast
    moreover have "map_of A (uid u) = None" using inv u by (simp add: loadInv_def)
    ultimately show "map_of (AList.update (uid x) tid A) (uid u) = None"
      by (simp add: AList.update_conv')
  qed
  have 5: "set xs \<subseteq> set allUnits" "distinct (map uid xs)"
    using inv by (simp_all add: loadInv_def)
  show ?thesis
    unfolding loadInv_def using dU 1 2 3 4 5 by blast
qed

lemma loadLoop_capacity:
  "loadInv allUnits cap stack R A \<Longrightarrow> assignedLoad allUnits (loadLoop stack R A) t \<le> cap t"
proof (induction stack arbitrary: R A rule: rev_induct)
  case Nil
  have "0 \<le> slotsLeft R t"
    using Nil by (intro slotsLeft_nonneg) (simp add: loadInv_def)
  moreover have "assignedLoad allUnits A t + slotsLeft R t \<le> cap t"
    using Nil by (simp add: loadInv_def)
  ultimately show ?case by (simp add: loadLoop_Nil)
next
  case (snoc x xs)
  show ?case
  proof (cases "R = []")
    case True
    have "assignedLoad allUnits A t + slotsLeft R t \<le> cap t"
      using snoc.prems by (simp add: loadInv_def)
    then show ?thesis using True by (simp add: loadLoop_no_room slotsLeft_def)
  next
    case False
    let ?f = "filter (\<lambda>(transportId, slots). slots \<ge> rsize (rules x)) R"
    show ?thesis
    proof (cases "?f = []")
      case True
      then have "loadLoop (xs @ [x]) R A = loadLoop xs R A"
        using False by (simp add: loadLoop_snoc)
      then show ?thesis
        using snoc.IH [OF loadInv_skip [OF snoc.prems]] by simp
    next
      case fit: False
      let ?R = "if snd (last ?f) - rsize (rules x) = 0
                 then AList.delete (fst (last ?f))
                        (AList.update (fst (last ?f)) (snd (last ?f) - rsize (rules x)) R)
                 else AList.update (fst (last ?f)) (snd (last ?f) - rsize (rules x)) R"
      have "loadLoop (xs @ [x]) R A = loadLoop xs ?R (AList.update (uid x) (fst (last ?f)) A)"
        using False fit by (simp add: loadLoop_snoc Let_def)
      moreover have "loadInv allUnits cap xs ?R (AList.update (uid x) (fst (last ?f)) A)"
        using snoc.prems fit by (rule loadInv_assign) simp_all
      ultimately show ?thesis
        using snoc.IH by simp
    qed
  qed
qed

lemma loadLoop_distinct_keys:
  "distinct (map fst A) \<Longrightarrow> distinct (map fst (loadLoop stack R A))"
proof (induction stack arbitrary: R A rule: rev_induct)
  case Nil
  then show ?case by (simp add: loadLoop_Nil)
next
  case (snoc x xs)
  show ?case
  proof (cases "R = []")
    case True
    then show ?thesis using snoc.prems by (simp add: loadLoop_no_room)
  next
    case False
    then show ?thesis
      using snoc.IH snoc.prems
      by (simp add: loadLoop_snoc Let_def AList.distinct_update)
  qed
qed

lemma onStart_inv:
  assumes d: "distinct (map uid allUnits)"
  shows "loadInv allUnits
     (slotsLeft (map (\<lambda>t. (uid t, passengers (rules t)))
        (filter (\<lambda>u. passengers (rules u) > 0) allUnits)))
     (filter (\<lambda>u. rsize (rules u) > 0
          \<and> uid u \<notin> set (map uid (filter (\<lambda>u. passengers (rules u) > 0) allUnits))) allUnits)
     (newMap (map (\<lambda>t. (uid t, passengers (rules t)))
        (filter (\<lambda>u. passengers (rules u) > 0) allUnits)))
     []"
proof -
  let ?ts = "filter (\<lambda>u. passengers (rules u) > 0) allUnits"
  let ?es = "map (\<lambda>t. (uid t, passengers (rules t))) ?ts"
  have keys: "map fst ?es = map uid ?ts" by (simp add: comp_def)
  have dk: "distinct (map fst ?es)"
    unfolding keys using d by (rule distinct_map_filter)
  then have nm: "newMap ?es = ?es" by (rule newMap_distinct)
  have pos: "\<forall>t r. map_of ?es t = Some r \<longrightarrow> 0 \<le> r"
  proof (intro allI impI)
    fix t r
    assume "map_of ?es t = Some r"
    then have "(t, r) \<in> set ?es" by (rule map_of_SomeD)
    then show "0 \<le> r" by auto
  qed
  have zero: "assignedLoad allUnits [] t = 0" for t
    by (simp add: assignedLoad_def)
  show ?thesis
    unfolding loadInv_def nm
    using d dk pos zero by (simp add: distinct_map_filter)
qed

lemma capacity_of_transport:
  assumes d: "distinct (map uid allUnits)" and t: "t \<in> set allUnits" and p: "passengers (rules t) > 0"
  shows "slotsLeft (map (\<lambda>t. (uid t, passengers (rules t)))
        (filter (\<lambda>u. passengers (rules u) > 0) allUnits)) (uid t) = passengers (rules t)"
proof -
  let ?ts = "filter (\<lambda>u. passengers (rules u) > 0) allUnits"
  let ?es = "map (\<lambda>t. (uid t, passengers (rules t))) ?ts"
  have keys: "map fst ?es = map uid ?ts" by (simp add: comp_def)
  have dk: "distinct (map fst ?es)"
    unfolding keys using d by (rule distinct_map_filter)
  have "(uid t, passengers (rules t)) \<in> set ?es" using t p by auto
  with dk have "map_of ?es (uid t) = Some (passengers (rules t))" by (rule map_of_is_SomeI)
  then show ?thesis by (simp add: slotsLeft_def)
qed

text \<open>
  C8. When the units of the mission have distinct ids, the assignment that \<open>onStart\<close>
  computes on a fresh handler gives every transport passengers whose sizes sum to at
  most its passenger capacity; the assignment is a map, so a passenger has at most one
  transport. Once the tick exceeds the deadline set by \<open>onStart\<close> (its tick plus
  LOAD_TIME_LIMIT), \<open>onStep\<close> returns step (advance), whatever was or was not assigned.
\<close>

theorem transport_loading:
  "distinct (map uid allUnits) \<and> h = fst (onStart allUnits tick0 newLoadOntoTransportHandler) \<longrightarrow>
     (\<forall>t \<in> set allUnits. passengers (rules t) > 0 \<longrightarrow>
        sum_list (map (\<lambda>u. rsize (rules u))
          (filter (\<lambda>u. map_of (transporteesToTransport h) (uid u) = Some (uid t)) allUnits))
        \<le> passengers (rules t))
   \<and> distinct (map fst (transporteesToTransport h))
   \<and> (\<forall>tick. tick > tick0 + LOAD_TIME_LIMIT \<longrightarrow> fst (onStep h tick) = Step)"
proof (intro impI)
  assume a: "distinct (map uid allUnits) \<and> h = fst (onStart allUnits tick0 newLoadOntoTransportHandler)"
  then have d: "distinct (map uid allUnits)"
    and h: "h = fst (onStart allUnits tick0 newLoadOntoTransportHandler)"
    by blast+
  let ?ts = "filter (\<lambda>u. passengers (rules u) > 0) allUnits"
  let ?es = "map (\<lambda>t. (uid t, passengers (rules t))) ?ts"
  let ?stack = "filter (\<lambda>u. rsize (rules u) > 0 \<and> uid u \<notin> set (map uid ?ts)) allUnits"
  have m: "transporteesToTransport h = loadLoop ?stack (newMap ?es) []"
    unfolding h by (simp add: onStart_def Let_def newLoadOntoTransportHandler_def)
  have ab: "abortAt h = Some (tick0 + LOAD_TIME_LIMIT)" "transporters h \<noteq> None"
    unfolding h by (simp_all add: onStart_def Let_def)
  have cap: "\<forall>t \<in> set allUnits. passengers (rules t) > 0 \<longrightarrow>
        sum_list (map (\<lambda>u. rsize (rules u))
          (filter (\<lambda>u. map_of (transporteesToTransport h) (uid u) = Some (uid t)) allUnits))
        \<le> passengers (rules t)"
  proof (intro ballI impI)
    fix t
    assume t: "t \<in> set allUnits" and p: "passengers (rules t) > 0"
    have "assignedLoad allUnits (loadLoop ?stack (newMap ?es) []) (uid t) \<le> slotsLeft ?es (uid t)"
      using onStart_inv [OF d] by (rule loadLoop_capacity)
    then show "sum_list (map (\<lambda>u. rsize (rules u))
          (filter (\<lambda>u. map_of (transporteesToTransport h) (uid u) = Some (uid t)) allUnits))
        \<le> passengers (rules t)"
      unfolding m capacity_of_transport [OF d t p] by (simp add: assignedLoad_def)
  qed
  have keys: "distinct (map fst (transporteesToTransport h))"
    unfolding m by (rule loadLoop_distinct_keys) simp
  have late: "\<forall>tick. tick > tick0 + LOAD_TIME_LIMIT \<longrightarrow> fst (onStep h tick) = Step"
    using ab by (simp add: onStep_def pastDeadline_def LOAD_TIME_LIMIT_def)
  show "(\<forall>t \<in> set allUnits. passengers (rules t) > 0 \<longrightarrow>
        sum_list (map (\<lambda>u. rsize (rules u))
          (filter (\<lambda>u. map_of (transporteesToTransport h) (uid u) = Some (uid t)) allUnits))
        \<le> passengers (rules t))
   \<and> distinct (map fst (transporteesToTransport h))
   \<and> (\<forall>tick. tick > tick0 + LOAD_TIME_LIMIT \<longrightarrow> fst (onStep h tick) = Step)"
    using cap keys late by blast
qed

lemma convoy_assignment:
  "transporteesToTransport (fst (onStart convoy 100 newLoadOntoTransportHandler)) = [(5, 2), (4, 1)]"
  by (simp add: onStart_def Let_def newLoadOntoTransportHandler_def convoy_def loadUnit_def
      newMap_def loadLoop.simps)

theorem transport_loading_witness:
  "transporteesToTransport (fst (onStart convoy 100 newLoadOntoTransportHandler)) = [(5, 2), (4, 1)]
   \<and> map_of (transporteesToTransport (fst (onStart convoy 100 newLoadOntoTransportHandler))) 3 = None
   \<and> sum_list (map (\<lambda>u. rsize (rules u))
          (filter (\<lambda>u. map_of (transporteesToTransport
              (fst (onStart convoy 100 newLoadOntoTransportHandler))) (uid u) = Some 2) convoy))
        \<le> 3
   \<and> fst (onStep (fst (onStart convoy 100 newLoadOntoTransportHandler)) 401) = Step
   \<and> fst (onStep (fst (onStart convoy 100 newLoadOntoTransportHandler)) 400) = Repeat"
proof -
  let ?h = "fst (onStart convoy 100 newLoadOntoTransportHandler)"
  have d: "distinct (map uid convoy)"
    by (simp add: convoy_def loadUnit_def)
  have t: "loadUnit 2 3 0 \<in> set convoy" "passengers (rules (loadUnit 2 3 0)) = 3"
    "uid (loadUnit 2 3 0) = 2"
    by (simp_all add: convoy_def loadUnit_def)
  have r: "fst (onStep ?h 400) = Repeat"
    by (simp add: onStep_def onStart_def Let_def pastDeadline_def LOAD_TIME_LIMIT_def)
  have "distinct (map uid convoy) \<and> ?h = fst (onStart convoy 100 newLoadOntoTransportHandler)"
    using d by simp
  with transport_loading [of convoy ?h 100]
  have cap: "\<forall>t \<in> set convoy. passengers (rules t) > 0 \<longrightarrow>
        sum_list (map (\<lambda>u. rsize (rules u))
          (filter (\<lambda>u. map_of (transporteesToTransport ?h) (uid u) = Some (uid t)) convoy))
        \<le> passengers (rules t)"
    and late: "\<forall>tick. tick > 100 + LOAD_TIME_LIMIT \<longrightarrow> fst (onStep ?h tick) = Step"
    by blast+
  have "0 < passengers (rules (loadUnit 2 3 0))" using t(2) by simp
  with cap t(1) have "sum_list (map (\<lambda>u. rsize (rules u))
          (filter (\<lambda>u. map_of (transporteesToTransport ?h) (uid u) = Some (uid (loadUnit 2 3 0)))
             convoy))
        \<le> passengers (rules (loadUnit 2 3 0))"
    by blast
  then have 1: "sum_list (map (\<lambda>u. rsize (rules u))
          (filter (\<lambda>u. map_of (transporteesToTransport ?h) (uid u) = Some 2) convoy)) \<le> 3"
    unfolding t(2,3) .
  have 2: "fst (onStep ?h 401) = Step"
    using late by (simp add: LOAD_TIME_LIMIT_def)
  have 3: "map_of (transporteesToTransport ?h) 3 = None"
    unfolding convoy_assignment by simp
  show ?thesis
    using convoy_assignment 1 2 3 r by blast
qed

end
